theory Spec2Isabelle
  imports Complex_Main "HOL-Library.Word" "HOL-Library.Log_Nat"
begin

unbundle bit_operations_syntax

section \<open>Register descriptors\<close>

text \<open>
  The driver describes every sensor register by a named tuple
  \<^verbatim>\<open>Register(addr, offset, mask)\<close>. Addresses and masks are Python integers; the
  offset is a shift count and is modelled as a natural number (a negative shift count
  raises in Python, and no descriptor of the driver has one). The field \<open>mask\<close> is
  named \<open>mask_reg\<close> here because \<open>mask\<close> is a constant of the bit library.
\<close>

record Register =
  addr :: int
  offset :: nat
  mask_reg :: int

definition Reg :: "int \<Rightarrow> nat \<Rightarrow> int \<Rightarrow> Register" where
  "Reg a off m = \<lparr>addr = a, offset = off, mask_reg = m\<rparr>"

definition LIGHTNING_COUNT :: "int list" where
  "LIGHTNING_COUNT = [0x01, 0x05, 0x09, 0x10]"

definition FREQ_DIVISOR :: "int list" where
  "FREQ_DIVISOR = [0x10, 0x20, 0x40, 0x80]"

definition pwd :: Register where "pwd = Reg 0x00 0x00 0x01"
definition afe_gb :: Register where "afe_gb = Reg 0x00 0x01 0x3E"
definition wdth :: Register where "wdth = Reg 0x01 0x00 0x0F"
definition nf_lev :: Register where "nf_lev = Reg 0x01 0x04 0x70"
definition srej :: Register where "srej = Reg 0x02 0x00 0x0F"
definition min_num_ligh :: Register where "min_num_ligh = Reg 0x02 0x04 0x30"
definition cl_stat :: Register where "cl_stat = Reg 0x02 0x06 0x40"
definition int_reg :: Register where "int_reg = Reg 0x03 0x00 0x0F"
definition mask_dist :: Register where "mask_dist = Reg 0x03 0x05 0x20"
definition lco_fdiv :: Register where "lco_fdiv = Reg 0x03 0x06 0xC0"
definition s_lig_l :: Register where "s_lig_l = Reg 0x04 0x00 0xFF"
definition s_lig_m :: Register where "s_lig_m = Reg 0x05 0x00 0xFF"
definition s_lig_mm :: Register where "s_lig_mm = Reg 0x06 0x00 0x1F"
definition distance_reg :: Register where "distance_reg = Reg 0x07 0x00 0x3F"
definition tun_cap :: Register where "tun_cap = Reg 0x08 0x00 0x0F"
definition disp_flags :: Register where "disp_flags = Reg 0x08 0x05 0xE0"
definition trco_calib_nok :: Register where "trco_calib_nok = Reg 0x3A 0x06 0x40"
definition trco_calib_done :: Register where "trco_calib_done = Reg 0x3A 0x07 0x80"
definition srco_calib_nok :: Register where "srco_calib_nok = Reg 0x3B 0x06 0x40"
definition srco_calib_done :: Register where "srco_calib_done = Reg 0x3B 0x07 0x80"
definition preset_default :: Register where "preset_default = Reg 0x3C 0x00 0xFF"
definition calib_rco :: Register where "calib_rco = Reg 0x3D 0x00 0xFF"

text \<open>The class attributes of \<^verbatim>\<open>AS3935\<close> that hold a descriptor, in source order.\<close>

definition registers :: "Register list" where
  "registers =
     [pwd, afe_gb, wdth, nf_lev, srej, min_num_ligh, cl_stat, int_reg, mask_dist,
      lco_fdiv, s_lig_l, s_lig_m, s_lig_mm, distance_reg, tun_cap, disp_flags,
      trco_calib_nok, trco_calib_done, srco_calib_nok, srco_calib_done,
      preset_default, calib_rco]"

definition triple :: "Register \<Rightarrow> int \<times> nat \<times> int" where
  "triple r = (addr r, offset r, mask_reg r)"

text \<open>
  The register table as the specification prints it (address, bit offset, bit mask), row
  by row: power_down, gain_boost/AFE, watchdog, noise_floor, spike_reject, min_strikes,
  clear_stats, interrupt_reason, disturber_mask, freq_divisor, strike_energy_lsb,
  strike_energy_msb, strike_energy_mmsb, distance, tuning_cap, display_flags,
  trco_not_ok, trco_done, srco_not_ok, srco_done, factory_reset, calibration_start.
\<close>

definition spec_register_table :: "(int \<times> nat \<times> int) list" where
  "spec_register_table =
     [(0, 0, 0x01), (0, 1, 0x3E), (1, 0, 0x0F), (1, 4, 0x70), (2, 0, 0x0F), (2, 4, 0x30),
      (2, 6, 0x40), (3, 0, 0x0F), (3, 5, 0x20), (3, 6, 0xC0), (4, 0, 0xFF), (5, 0, 0xFF),
      (6, 0, 0x1F), (7, 0, 0x3F), (8, 0, 0x0F), (8, 5, 0xE0), (58, 6, 0x40), (58, 7, 0x80),
      (59, 6, 0x40), (59, 7, 0x80), (60, 0, 0xFF), (61, 0, 0xFF)]"

section \<open>The bus, the clock and the log of what the driver did\<close>

text \<open>
  The SPI device and the \<^verbatim>\<open>time\<close> module are collaborators outside the driver. Every
  transaction the driver performs and every call of \<^verbatim>\<open>time.monotonic\<close> and
  \<^verbatim>\<open>time.sleep\<close> is appended to a trace; the trace is the state that is passed along.
  The environment decides, from the trace so far, which byte the chip clocks out after a
  read command and what the monotonic clock shows. A clock reading is a Python float,
  recorded by the real number it stands for; the float subtraction of the deadline test
  is \<open>float_sub\<close> below.

  \<^item> \<open>Rd c d\<close>: one framed transaction that sends command byte \<open>c\<close> and reads byte \<open>d\<close>;
  \<^item> \<open>Wr c d\<close>: one framed transaction that sends command byte \<open>c\<close> and data byte \<open>d\<close>;
  \<^item> \<open>Monotonic t\<close>: a call of \<^verbatim>\<open>time.monotonic()\<close> that returned \<open>t\<close>;
  \<^item> \<open>Sleep t\<close>: a call of \<^verbatim>\<open>time.sleep(t)\<close>, the argument recorded by the value of
    its decimal literal.
\<close>

datatype event = Rd int int | Wr int int | Monotonic real | Sleep real

record env =
  spi_reply :: "event list \<Rightarrow> int \<Rightarrow> 8 word"
  clock :: "event list \<Rightarrow> real"

text \<open>
  Exceptions are values. The two \<^verbatim>\<open>ValueError\<close>s of the helper functions carry the
  data their message is formatted from; \<open>ByteRangeError\<close> is the \<^verbatim>\<open>ValueError\<close> a
  \<^verbatim>\<open>bytearray\<close> raises when an element outside 0..255 is stored.
\<close>

datatype error =
    ChoiceError "int list"
  | RangeError int int
  | ByteRangeError
  | IndexError
  | TimeoutError string
  | RuntimeError string

type_synonym 'a outcome = "(error + 'a) \<times> event list"

section \<open>Byte transfers and bit-field access\<close>

definition read_byte_in :: "env \<Rightarrow> Register \<Rightarrow> event list \<Rightarrow> int \<times> event list" where
  "read_byte_in e register tr =
     (let cmd = (addr register AND 0x3F) OR 0x40;
          d = uint (spi_reply e tr cmd)
      in (d, tr @ [Rd cmd d]))"

definition write_byte_out :: "Register \<Rightarrow> int \<Rightarrow> event list \<Rightarrow> unit outcome" where
  "write_byte_out register data tr =
     (let cmd = addr register AND 0x3F
      in if 0 \<le> data \<and> data < 256 then (Inr (), tr @ [Wr cmd data])
         else (Inl ByteRangeError, tr))"

definition get_register :: "env \<Rightarrow> Register \<Rightarrow> event list \<Rightarrow> int \<times> event list" where
  "get_register e register tr =
     (let (b, tr1) = read_byte_in e register tr
      in (drop_bit (offset register) (b AND mask_reg register), tr1))"

definition set_register :: "env \<Rightarrow> Register \<Rightarrow> int \<Rightarrow> event list \<Rightarrow> unit outcome" where
  "set_register e register v tr =
     (let (b, tr1) = read_byte_in e register tr;
          b1 = b AND NOT (mask_reg register);
          b2 = b1 OR (push_bit (offset register) v AND 0xFF)
      in write_byte_out register b2 tr1)"

section \<open>Validation helpers\<close>

text \<open>\<^verbatim>\<open>choices.index(value)\<close>: the position of the first occurrence, if there is one.\<close>

fun index_of :: "int \<Rightarrow> int list \<Rightarrow> nat option" where
  "index_of v [] = None"
| "index_of v (x # xs) = (if x = v then Some 0 else map_option Suc (index_of v xs))"

definition reg_value_from_choices :: "int \<Rightarrow> int list \<Rightarrow> error + int" where
  "reg_value_from_choices v choices =
     (case index_of v choices of
        Some i \<Rightarrow> Inr (int i)
      | None \<Rightarrow> Inl (ChoiceError choices))"

definition value_is_in_range :: "int \<Rightarrow> int \<Rightarrow> int \<Rightarrow> error + int" where
  "value_is_in_range v lo_limit hi_limit =
     (if lo_limit \<le> v \<and> v \<le> hi_limit then Inr v else Inl (RangeError lo_limit hi_limit))"

text \<open>
  \<^verbatim>\<open>choices[i]\<close> on a tuple: positions \<open>0 .. len - 1\<close> read from the front, positions
  \<open>-len .. -1\<close> read from the back, anything else raises \<^verbatim>\<open>IndexError\<close>.
\<close>

definition tuple_get :: "int list \<Rightarrow> int \<Rightarrow> error + int" where
  "tuple_get xs i =
     (if 0 \<le> i \<and> i < int (length xs) then Inr (xs ! nat i)
      else if - int (length xs) \<le> i \<and> i < 0 then Inr (xs ! nat (int (length xs) + i))
      else Inl IndexError)"

section \<open>Properties of the driver\<close>

definition watchdog :: "env \<Rightarrow> event list \<Rightarrow> int \<times> event list" where
  "watchdog e tr = get_register e wdth tr"

definition watchdog_set :: "env \<Rightarrow> int \<Rightarrow> event list \<Rightarrow> unit outcome" where
  "watchdog_set e v tr =
     (case value_is_in_range v 0x00 0x0A of
        Inl err \<Rightarrow> (Inl err, tr)
      | Inr x \<Rightarrow> set_register e wdth x tr)"

definition strike_count_threshold :: "env \<Rightarrow> event list \<Rightarrow> int outcome" where
  "strike_count_threshold e tr =
     (let (i, tr1) = get_register e min_num_ligh tr in (tuple_get LIGHTNING_COUNT i, tr1))"

definition strike_count_threshold_set :: "env \<Rightarrow> int \<Rightarrow> event list \<Rightarrow> unit outcome" where
  "strike_count_threshold_set e v tr =
     (case reg_value_from_choices v LIGHTNING_COUNT of
        Inl err \<Rightarrow> (Inl err, tr)
      | Inr i \<Rightarrow> set_register e min_num_ligh i tr)"

definition freq_divisor :: "env \<Rightarrow> event list \<Rightarrow> int outcome" where
  "freq_divisor e tr =
     (let (i, tr1) = get_register e lco_fdiv tr in (tuple_get FREQ_DIVISOR i, tr1))"

definition freq_divisor_set :: "env \<Rightarrow> int \<Rightarrow> event list \<Rightarrow> unit outcome" where
  "freq_divisor_set e v tr =
     (case reg_value_from_choices v FREQ_DIVISOR of
        Inl err \<Rightarrow> (Inl err, tr)
      | Inr i \<Rightarrow> set_register e lco_fdiv i tr)"

definition power_down :: "env \<Rightarrow> event list \<Rightarrow> bool \<times> event list" where
  "power_down e tr = (let (p, tr1) = get_register e pwd tr in (p \<noteq> 0, tr1))"

section \<open>Float subtraction\<close>

text \<open>
  \<^verbatim>\<open>time.monotonic() - start\<close> subtracts two IEEE 754 double-precision numbers: the
  result is the exact difference rounded to the nearest double, ties to the one with an
  even significand. Every finite double is a whole multiple of \<open>2 ^ -1074\<close> with a
  significand of at most 53 bits, so the difference \<open>x\<close> of two doubles is the integer
  \<open>n = x * 2 ^ 1074\<close> in these units; it is kept when it has at most 53 bits and rounded
  to its 53 leading bits otherwise. \<open>round_half_even n s\<close> is \<open>n / 2 ^ s\<close> rounded to the
  nearest integer, ties to even. Infinities and NaN are not modelled: the clock returns
  finite readings, and a difference too large for a double compares with 1 as its exact
  value does.
\<close>

definition round_half_even :: "int \<Rightarrow> nat \<Rightarrow> int" where
  "round_half_even n s =
     (let q = n div 2 ^ s; r = n mod 2 ^ s
      in if 2 * r < 2 ^ s then q
         else if 2 * r > 2 ^ s then q + 1
         else if even q then q else q + 1)"

definition round_to_double :: "real \<Rightarrow> real" where
  "round_to_double x =
     (let n = \<lfloor>x * 2 ^ 1074\<rfloor>; k = bitlen \<bar>n\<bar>
      in if k \<le> 53 then of_int n / 2 ^ 1074
         else of_int (round_half_even n (nat (k - 53)) * 2 ^ nat (k - 53)) / 2 ^ 1074)"

definition float_sub :: "real \<Rightarrow> real \<Rightarrow> real" where
  "float_sub a b = round_to_double (a - b)"

section \<open>Clock calibration\<close>

definition monotonic :: "env \<Rightarrow> event list \<Rightarrow> real \<times> event list" where
  "monotonic e tr = (let t = clock e tr in (t, tr @ [Monotonic t]))"

definition sleep :: "real \<Rightarrow> event list \<Rightarrow> event list" where
  "sleep t tr = tr @ [Sleep t]"

text \<open>
  The condition of the \<^verbatim>\<open>while\<close> loop, before its negation:
  \<^verbatim>\<open>_get_register(_trco_calib_done) and _get_register(_srco_calib_done)\<close>.
  Python's \<^verbatim>\<open>and\<close> does not evaluate its second operand when the first is 0.
\<close>

definition calibration_done :: "env \<Rightarrow> event list \<Rightarrow> bool \<times> event list" where
  "calibration_done e tr =
     (let (t, tr1) = get_register e trco_calib_done tr
      in if t = 0 then (False, tr1)
         else let (s, tr2) = get_register e srco_calib_done tr1 in (s \<noteq> 0, tr2))"

text \<open>
  The \<^verbatim>\<open>while\<close> loop of \<^verbatim>\<open>_calibrate_clocks\<close>. It leaves either with both done
  flags read as set, or by raising \<^verbatim>\<open>TimeoutError\<close>; when neither ever happens, it does
  not return, which is the value \<open>None\<close>.
\<close>

partial_function (option) wait_for_calibration ::
  "env \<Rightarrow> real \<Rightarrow> event list \<Rightarrow> unit outcome option" where
  "wait_for_calibration e start tr =
     (case calibration_done e tr of
        (fin, tr1) \<Rightarrow>
          if fin then Some (Inr (), tr1)
          else (case monotonic e tr1 of
                  (now, tr2) \<Rightarrow>
                    if float_sub now start > 1
                    then Some (Inl (TimeoutError ''RCO calibration timed out.''), tr2)
                    else wait_for_calibration e start tr2))"

declare wait_for_calibration.simps [code]

definition calibrate_clocks :: "env \<Rightarrow> event list \<Rightarrow> unit outcome option" where
  "calibrate_clocks e tr =
     (case set_register e calib_rco 0x96 tr of
        (Inl err, tr1) \<Rightarrow> Some (Inl err, tr1)
      | (Inr _, tr1) \<Rightarrow>
          (case monotonic e tr1 of
             (start, tr2) \<Rightarrow>
               (case wait_for_calibration e start tr2 of
                  None \<Rightarrow> None
                | Some (Inl err, tr3) \<Rightarrow> Some (Inl err, tr3)
                | Some (Inr _, tr3) \<Rightarrow>
                    (case get_register e trco_calib_nok tr3 of
                       (tn, tr4) \<Rightarrow>
                         if tn \<noteq> 0
                         then Some (Inl (RuntimeError ''AS3935 RCO calibration failed.''), tr4)
                         else (case get_register e srco_calib_nok tr4 of
                                 (sn, tr5) \<Rightarrow>
                                   if sn \<noteq> 0
                                   then Some (Inl (RuntimeError ''AS3935 RCO calibration failed.''), tr5)
                                   else Some (Inr (), tr5))))))"

text \<open>
  Statement sequencing: the next statement runs on the trace the previous one left, unless
  the previous one raised or did not return.
\<close>

fun and_then ::
  "unit outcome option \<Rightarrow> (event list \<Rightarrow> unit outcome option) \<Rightarrow> unit outcome option" where
  "and_then None f = None"
| "and_then (Some (Inl err, tr)) f = Some (Inl err, tr)"
| "and_then (Some (Inr _, tr)) f = f tr"

definition power_down_set :: "env \<Rightarrow> bool \<Rightarrow> event list \<Rightarrow> unit outcome option" where
  "power_down_set e v tr =
     (if v then Some (set_register e pwd 0x01 tr)
      else (case power_down e tr of
              (p, tr1) \<Rightarrow>
                if p then
                  and_then (Some (set_register e pwd 0x00 tr1)) (\<lambda>tr2.
                  and_then (calibrate_clocks e tr2) (\<lambda>tr3.
                  and_then (Some (set_register e disp_flags 0x02 tr3)) (\<lambda>tr4.
                  Some (set_register e disp_flags 0x00 (sleep 0.002 tr4)))))
                else Some (Inr (), tr1)))"

section \<open>Simulated environments\<close>

text \<open>
  A bus that echoes writes: a register file of 64 bytes, addressed by the low six bits
  of the command byte. A read returns what was last written to the address, or the
  initial content \<open>init\<close>.
\<close>

fun store :: "(int \<Rightarrow> 8 word) \<Rightarrow> event \<Rightarrow> (int \<Rightarrow> 8 word)" where
  "store m (Wr c d) = m(c AND 0x3F := word_of_int d)"
| "store m (Rd c d) = m"
| "store m (Monotonic t) = m"
| "store m (Sleep t) = m"

definition echo_bus :: "(int \<Rightarrow> 8 word) \<Rightarrow> (event list \<Rightarrow> real) \<Rightarrow> env" where
  "echo_bus init ck = \<lparr>spi_reply = (\<lambda>tr cmd. foldl store init tr (cmd AND 0x3F)), clock = ck\<rparr>"

text \<open>
  A chip whose registers never change, a clock that advances one second per event, and a
  clock that stands still.
\<close>

definition fixed_bus :: "(int \<Rightarrow> 8 word) \<Rightarrow> (event list \<Rightarrow> real) \<Rightarrow> env" where
  "fixed_bus regs ck = \<lparr>spi_reply = (\<lambda>tr cmd. regs (cmd AND 0x3F)), clock = ck\<rparr>"

definition ticking :: "event list \<Rightarrow> real" where
  "ticking tr = real (length tr)"

definition stopped :: "event list \<Rightarrow> real" where
  "stopped tr = 0"

text \<open>
  The invariant of the data model: the mask is a contiguous run of one-bits inside a byte
  and the offset is the index of its lowest bit. \<open>field_max\<close> is the largest value the
  field holds.
\<close>

definition well_formed :: "Register \<Rightarrow> bool" where
  "well_formed r =
     (mask_reg r \<in> set (map (\<lambda>w. push_bit (offset r) (2 ^ w - 1)) [1 ..< 9 - offset r]))"

definition field_max :: "Register \<Rightarrow> int" where
  "field_max r = drop_bit (offset r) (mask_reg r)"

text \<open>Concrete environments used to run the driver on explicit inputs.\<close>

definition zero_regs :: "int \<Rightarrow> 8 word" where
  "zero_regs a = 0"

definition blank_bus :: env where
  "blank_bus = echo_bus zero_regs stopped"

definition ones_regs :: "int \<Rightarrow> 8 word" where
  "ones_regs a = 0xFF"

definition loaded_bus :: env where
  "loaded_bus = echo_bus ones_regs stopped"

definition dead_bus :: env where
  "dead_bus = fixed_bus zero_regs stopped"

text \<open>
  The poll loop, one iteration at a time. \<open>next_poll e tr\<close> is the trace after an
  iteration that begins at \<open>tr\<close> and goes on: the reads of the done condition, then the
  clock reading. \<open>nth_poll e tr n\<close> is the trace at which iteration \<open>n\<close> begins when the
  loop is entered at \<open>tr\<close> and no earlier iteration ends it. \<open>stops e start tr\<close>: the
  iteration that begins at \<open>tr\<close> ends the loop, because the done condition holds or
  because the clock reading taken after it is, by the float subtraction, more than 1
  after \<open>start\<close>.
\<close>

definition next_poll :: "env \<Rightarrow> event list \<Rightarrow> event list" where
  "next_poll e tr = snd (monotonic e (snd (calibration_done e tr)))"

fun nth_poll :: "env \<Rightarrow> event list \<Rightarrow> nat \<Rightarrow> event list" where
  "nth_poll e tr 0 = tr"
| "nth_poll e tr (Suc n) = nth_poll e (next_poll e tr) n"

definition stops :: "env \<Rightarrow> real \<Rightarrow> event list \<Rightarrow> bool" where
  "stops e start tr \<longleftrightarrow>
     fst (calibration_done e tr)
     \<or> float_sub (fst (monotonic e (snd (calibration_done e tr)))) start > 1"


definition half_ticking :: "event list \<Rightarrow> real" where
  "half_ticking tr = real (length tr) / 2"

definition dead_slow :: env where
  "dead_slow = fixed_bus zero_regs half_ticking"

definition trco_failed_regs :: "int \<Rightarrow> 8 word" where
  "trco_failed_regs a = (if a = 0x3A then 0xC0 else if a = 0x3B then 0x80 else 0)"

definition srco_failed_regs :: "int \<Rightarrow> 8 word" where
  "srco_failed_regs a = (if a = 0x3A then 0x80 else if a = 0x3B then 0xC0 else 0)"

definition trco_failed :: env where
  "trco_failed = fixed_bus trco_failed_regs ticking"

definition srco_failed :: env where
  "srco_failed = fixed_bus srco_failed_regs ticking"

text \<open>
  A chip in power-down (bit 0 of register 0 set) on which both calibrations are done and
  neither reports not-ok.
\<close>

definition powered_down_regs :: "int \<Rightarrow> 8 word" where
  "powered_down_regs a = (if a = 0x00 then 0x01 else if a = 0x3A \<or> a = 0x3B then 0x80 else 0)"

definition powered_down_chip :: env where
  "powered_down_chip = fixed_bus powered_down_regs ticking"

section \<open>The shape of a calibration trace\<close>

text \<open>
  \<open>unfinished rs\<close>: the transactions \<open>rs\<close> are one evaluation of the loop condition that
  found the calibration not done, that is a read of register 0x3A with bit 7 clear, or a
  read of 0x3A with bit 7 set followed by a read of 0x3B with bit 7 clear.
  \<open>finished rs\<close>: both reads, both with bit 7 set.
  \<open>polled start evs res\<close>: the events \<open>evs\<close> are a run of the poll loop entered at clock
  reading \<open>start\<close> that ended with \<open>res\<close>: any number of unfinished evaluations, each
  followed by a clock reading whose float difference from \<open>start\<close> is at most 1, and
  then either a finished evaluation, or an unfinished one followed by a clock reading
  whose float difference from \<open>start\<close> is above 1.
\<close>

fun is_write :: "event \<Rightarrow> bool" where
  "is_write (Wr c d) = True"
| "is_write (Rd c d) = False"
| "is_write (Monotonic t) = False"
| "is_write (Sleep t) = False"

fun is_read :: "event \<Rightarrow> bool" where
  "is_read (Rd c d) = True"
| "is_read (Wr c d) = False"
| "is_read (Monotonic t) = False"
| "is_read (Sleep t) = False"

fun is_clock :: "event \<Rightarrow> bool" where
  "is_clock (Monotonic t) = True"
| "is_clock (Rd c d) = False"
| "is_clock (Wr c d) = False"
| "is_clock (Sleep t) = False"

text \<open>
  A clock whose first reading is the double just below 1 and whose every later reading
  is 2, on a chip that never reports done.
\<close>

definition edge_clock :: "event list \<Rightarrow> real" where
  "edge_clock tr = (if list_ex is_clock tr then 2 else 1 - 1 / 2 ^ 53)"

definition dead_edge :: env where
  "dead_edge = fixed_bus zero_regs edge_clock"

fun unfinished :: "event list \<Rightarrow> bool" where
  "unfinished [Rd c d] = (c = 0x7A \<and> \<not> bit d 7)"
| "unfinished [Rd c d, Rd c' s] = (c = 0x7A \<and> c' = 0x7B \<and> bit d 7 \<and> \<not> bit s 7)"
| "unfinished evs = False"

fun finished :: "event list \<Rightarrow> bool" where
  "finished [Rd c d, Rd c' s] = (c = 0x7A \<and> c' = 0x7B \<and> bit d 7 \<and> bit s 7)"
| "finished evs = False"

fun polled :: "real \<Rightarrow> event list \<Rightarrow> error + unit \<Rightarrow> bool" where
  "polled start (Rd c d # Monotonic t # evs) res =
     (unfinished [Rd c d] \<and>
      (if float_sub t start > 1 then evs = [] \<and> res = Inl (TimeoutError ''RCO calibration timed out.'')
       else polled start evs res))"
| "polled start (Rd c d # Rd c' s # Monotonic t # evs) res =
     (unfinished [Rd c d, Rd c' s] \<and>
      (if float_sub t start > 1 then evs = [] \<and> res = Inl (TimeoutError ''RCO calibration timed out.'')
       else polled start evs res))"
| "polled start evs res = (finished evs \<and> res = Inr ())"

section \<open>Bytes and bit fields\<close>

lemma m255: "(255::int) = mask 8"
  by (simp add: mask_eq_exp_minus_1)

lemma and63_mod: "(A::int) AND 0x3F = A mod 64"
proof -
  have "A AND 0x3F = take_bit 6 A" by (simp add: take_bit_eq_mask mask_eq_exp_minus_1)
  then show ?thesis by (simp add: take_bit_eq_mod)
qed

lemma or64_add: "0x40 OR ((A::int) AND 0x3F) = 64 + A mod 64"
proof -
  have "push_bit n (1::int) AND (A AND mask n) = 0" for n
    by (rule bit_eqI) (auto simp: bit_simps)
  from this [of 6] have "(0x40::int) AND (A AND 0x3F) = 0"
    by (simp add: mask_eq_exp_minus_1 push_bit_eq_mult)
  then have "0x40 + (A AND 0x3F) = 0x40 OR (A AND 0x3F)" by (rule disjunctive_add_eq_or)
  then show ?thesis by (simp add: and63_mod)
qed

text \<open>The byte \<^verbatim>\<open>_set_register\<close> hands to \<^verbatim>\<open>_write_byte_out\<close> always fits the data buffer.\<close>

lemma byte_bounds:
  fixes d :: "8 word"
  shows "0 \<le> (uint d AND NOT m) OR (x AND 0xFF) \<and> (uint d AND NOT m) OR (x AND 0xFF) < 256"
proof -
  let ?b = "(uint d AND NOT m) OR (x AND mask 8)"
  have "take_bit 8 ?b = ?b"
    by (rule bit_eqI) (auto simp: bit_simps bit_uint_iff dest: bit_imp_le_length)
  then have "0 \<le> ?b \<and> ?b < 2 ^ 8"
    by (metis take_bit_nonnegative take_bit_int_less_exp)
  then show ?thesis by (simp add: m255)
qed

lemma set_register_eq:
  "set_register e r v tr =
     (Inr (), tr @ [Rd (0x40 OR (addr r AND 0x3F)) (uint (spi_reply e tr (0x40 OR (addr r AND 0x3F)))),
                    Wr (addr r AND 0x3F)
                       ((uint (spi_reply e tr (0x40 OR (addr r AND 0x3F))) AND NOT (mask_reg r))
                         OR (push_bit (offset r) v AND 0xFF))])"
  using byte_bounds [of "spi_reply e tr (0x40 OR (addr r AND 0x3F))" "mask_reg r" "push_bit (offset r) v"]
  by (simp add: set_register_def read_byte_in_def write_byte_out_def Let_def or.commute)

lemma get_register_eq:
  "get_register e r tr =
     (drop_bit (offset r) (uint (spi_reply e tr (0x40 OR (addr r AND 0x3F))) AND mask_reg r),
      tr @ [Rd (0x40 OR (addr r AND 0x3F)) (uint (spi_reply e tr (0x40 OR (addr r AND 0x3F))))])"
  by (simp add: get_register_def read_byte_in_def Let_def or.commute)

lemma small_and_255: "0 \<le> v \<Longrightarrow> v < 256 \<Longrightarrow> (v::int) AND 0xFF = v"
  unfolding m255 by (simp add: take_bit_eq_mask [symmetric] take_bit_int_eq_self)

text \<open>What the echoing bus returns after a read-modify-write of a field.\<close>

lemma cmd_low: "(0x40 OR ((A::int) AND 0x3F)) AND 0x3F = A AND 0x3F"
proof -
  have "(push_bit n (1::int) OR (A AND mask n)) AND mask n = A AND mask n" for n
    by (rule bit_eqI) (auto simp: bit_simps)
  from this [of 6] show ?thesis by (simp add: mask_eq_exp_minus_1 push_bit_eq_mult)
qed

lemma and63_idem: "((A::int) AND 0x3F) AND 0x3F = A AND 0x3F"
  by (simp add: and.assoc)

lemma echo_after_write:
  "spi_reply (echo_bus init ck) (tr @ [Rd c d, Wr (A AND 0x3F) b]) (0x40 OR (A AND 0x3F))
     = word_of_int b"
  by (simp add: echo_bus_def cmd_low and63_idem)

lemma well_formedE:
  assumes "well_formed r"
  obtains w where "1 \<le> w" "offset r + w \<le> 8" "mask_reg r = push_bit (offset r) (mask w)"
proof -
  from assms obtain w where w: "w \<in> set [1 ..< 9 - offset r]"
    and m: "mask_reg r = push_bit (offset r) (2 ^ w - 1)"
    by (auto simp: well_formed_def)
  from w have "1 \<le> w" "offset r + w \<le> 8" by auto
  moreover from m have "mask_reg r = push_bit (offset r) (mask w)"
    by (simp add: mask_eq_exp_minus_1)
  ultimately show thesis by (rule that)
qed

lemma field_max_mask:
  "mask_reg r = push_bit (offset r) (mask w) \<Longrightarrow> field_max r = mask w"
  unfolding field_max_def by (rule bit_eqI) (simp add: bit_simps)

lemma fits_take_bit:
  assumes "0 \<le> v" "v \<le> mask w"
  shows "take_bit w v = (v::int)"
proof -
  from assms(2) have "v < 2 ^ w" by (simp add: mask_eq_exp_minus_1)
  with assms(1) show ?thesis by (simp add: take_bit_int_eq_self)
qed

lemma field_roundtrip:
  fixes v :: int
  assumes "off + w \<le> 8" "take_bit w v = v"
  shows "drop_bit off (((d AND NOT (push_bit off (mask w))) OR (push_bit off v AND mask 8))
           AND push_bit off (mask w)) = v"
proof -
  have "bit v n \<Longrightarrow> n < w" for n
    using assms(2) by (metis bit_take_bit_iff)
  with assms(1) have bv: "bit v n \<Longrightarrow> n < w \<and> off + n < 8" for n
    by fastforce
  show ?thesis
    by (rule bit_eqI) (auto simp: bit_simps dest: bv)
qed

lemma field_frame:
  fixes v :: int
  assumes "off + w \<le> 8" "take_bit w v = v"
  shows "((d AND NOT (push_bit off (mask w))) OR (push_bit off v AND mask 8))
           AND NOT (push_bit off (mask w)) = d AND NOT (push_bit off (mask w))"
proof -
  have "bit v n \<Longrightarrow> n < w" for n
    using assms(2) by (metis bit_take_bit_iff)
  with assms(1) have bv: "bit v n \<Longrightarrow> n < w \<and> off + n < 8" for n
    by fastforce
  show ?thesis
    by (rule bit_eqI) (auto simp: bit_simps dest: bv)
qed

lemma uint_written_byte:
  fixes d :: "8 word"
  shows "uint (word_of_int ((uint d AND NOT m) OR (x AND 0xFF)) :: 8 word)
           = (uint d AND NOT m) OR (x AND 0xFF)"
  using byte_bounds [of d m x] by (simp add: uint_word_of_int take_bit_int_eq_self)

lemma set_register_echo:
  fixes init ck r v tr
  defines "E \<equiv> echo_bus init ck"
  defines "d \<equiv> uint (spi_reply E tr (0x40 OR (addr r AND 0x3F)))"
  defines "b \<equiv> (d AND NOT (mask_reg r)) OR (push_bit (offset r) v AND 0xFF)"
  shows "fst (set_register E r v tr) = Inr ()"
    and "fst (read_byte_in E r tr) = d"
    and "fst (read_byte_in E r (snd (set_register E r v tr))) = b"
    and "fst (get_register E r (snd (set_register E r v tr)))
           = drop_bit (offset r) (b AND mask_reg r)"
proof -
  show "fst (set_register E r v tr) = Inr ()" by (simp add: set_register_eq)
  show "fst (read_byte_in E r tr) = d"
    by (simp add: read_byte_in_def d_def Let_def or.commute)
  have rb: "uint (spi_reply E (snd (set_register E r v tr)) (0x40 OR (addr r AND 0x3F))) = b"
    unfolding set_register_eq snd_conv E_def echo_after_write
    unfolding b_def d_def E_def by (rule uint_written_byte)
  show "fst (read_byte_in E r (snd (set_register E r v tr))) = b"
    using rb by (simp add: read_byte_in_def Let_def or.commute)
  show "fst (get_register E r (snd (set_register E r v tr)))
           = drop_bit (offset r) (b AND mask_reg r)"
    unfolding get_register_eq fst_conv rb ..
qed

lemma field_set_get:
  assumes "well_formed r" "0 \<le> v" "v \<le> field_max r"
  shows "fst (set_register (echo_bus init ck) r v tr) = Inr ()
       \<and> fst (get_register (echo_bus init ck) r (snd (set_register (echo_bus init ck) r v tr))) = v"
proof -
  from assms(1) obtain w where w: "offset r + w \<le> 8"
    and m: "mask_reg r = push_bit (offset r) (mask w)" by (rule well_formedE)
  from assms(2,3) m have tv: "take_bit w v = v"
    by (simp add: field_max_mask fits_take_bit)
  show ?thesis
    unfolding set_register_echo m m255 using field_roundtrip [OF w tv] by simp
qed

lemma field_set_frame:
  assumes "well_formed r" "0 \<le> v" "v \<le> field_max r"
  shows "fst (read_byte_in (echo_bus init ck) r (snd (set_register (echo_bus init ck) r v tr)))
           AND NOT (mask_reg r)
         = fst (read_byte_in (echo_bus init ck) r tr) AND NOT (mask_reg r)"
proof -
  from assms(1) obtain w where w: "offset r + w \<le> 8"
    and m: "mask_reg r = push_bit (offset r) (mask w)" by (rule well_formedE)
  from assms(2,3) m have tv: "take_bit w v = v"
    by (simp add: field_max_mask fits_take_bit)
  show ?thesis
    unfolding set_register_echo(3) unfolding set_register_echo(2) m m255
    by (rule field_frame [OF w tv])
qed

lemma registers_well_formed: "list_all well_formed registers"
  by (simp add: registers_def well_formed_def Reg_def
      pwd_def afe_gb_def wdth_def nf_lev_def srej_def min_num_ligh_def cl_stat_def int_reg_def
      mask_dist_def lco_fdiv_def s_lig_l_def s_lig_m_def s_lig_mm_def distance_reg_def
      tun_cap_def disp_flags_def trco_calib_nok_def trco_calib_done_def srco_calib_nok_def
      srco_calib_done_def preset_default_def calib_rco_def upt_rec push_bit_eq_mult)

lemma wf_min_num_ligh: "well_formed min_num_ligh" "field_max min_num_ligh = 3"
  by (simp_all add: well_formed_def field_max_def min_num_ligh_def Reg_def upt_rec push_bit_eq_mult drop_bit_eq_div)

lemma wf_lco_fdiv: "well_formed lco_fdiv" "field_max lco_fdiv = 3"
  by (simp_all add: well_formed_def field_max_def lco_fdiv_def Reg_def upt_rec push_bit_eq_mult drop_bit_eq_div)

lemma choice_cases:
  "reg_value_from_choices v [a, b, c, d] =
     (if v = a then Inr 0 else if v = b then Inr 1 else if v = c then Inr 2
      else if v = d then Inr 3 else Inl (ChoiceError [a, b, c, d]))"
  by (auto simp: reg_value_from_choices_def)

section \<open>Command bytes\<close>

text \<open>
  C3. For every address \<open>A\<close>, also one of 64 or more (it wraps silently, nothing is
  raised), the read transaction sends the command byte \<open>0x40 | (A & 0x3F)\<close> and the write
  transaction sends \<open>A & 0x3F\<close>, that is \<open>64 + A mod 64\<close> and \<open>A mod 64\<close>; at the
  addresses 0x00, 0x3F, 0x40 and 0xFF these are 0x40, 0x7F, 0x40, 0x7F for a read and
  0x00, 0x3F, 0x00, 0x3F for a write.
\<close>

theorem command_bytes:
  "read_byte_in e (Reg A off m) tr
     = (uint (spi_reply e tr (0x40 OR (A AND 0x3F))),
        tr @ [Rd (0x40 OR (A AND 0x3F)) (uint (spi_reply e tr (0x40 OR (A AND 0x3F))))])
   \<and> write_byte_out (Reg A off m) (uint (d :: 8 word)) tr
     = (Inr (), tr @ [Wr (A AND 0x3F) (uint d)])
   \<and> 0x40 OR (A AND 0x3F) = 64 + A mod 64 \<and> A AND 0x3F = A mod 64
   \<and> map (\<lambda>A. 0x40 OR (A AND 0x3F)) [0x00, 0x3F, 0x40, 0xFF :: int] = [0x40, 0x7F, 0x40, 0x7F]
   \<and> map (\<lambda>A. A AND 0x3F) [0x00, 0x3F, 0x40, 0xFF :: int] = [0x00, 0x3F, 0x00, 0x3F]"
proof -
  have rd: "read_byte_in e (Reg A off m) tr
     = (uint (spi_reply e tr (0x40 OR (A AND 0x3F))),
        tr @ [Rd (0x40 OR (A AND 0x3F)) (uint (spi_reply e tr (0x40 OR (A AND 0x3F))))])"
    by (simp add: read_byte_in_def Reg_def Let_def or.commute)
  have "uint d < 256" using uint_bounded [of d] by simp
  then have wr: "write_byte_out (Reg A off m) (uint d) tr = (Inr (), tr @ [Wr (A AND 0x3F) (uint d)])"
    by (simp add: write_byte_out_def Reg_def Let_def)
  have b1: "map (\<lambda>A. 0x40 OR (A AND 0x3F)) [0x00, 0x3F, 0x40, 0xFF :: int] = [0x40, 0x7F, 0x40, 0x7F]"
    by simp
  have b2: "map (\<lambda>A. A AND 0x3F) [0x00, 0x3F, 0x40, 0xFF :: int] = [0x00, 0x3F, 0x00, 0x3F]"
    by simp
  from rd wr b1 b2 or64_add [of A] and63_mod [of A] show ?thesis by blast
qed

section \<open>The register table\<close>

text \<open>
  C8. The descriptors of the driver, in source order, are exactly the 22 triples
  (address, bit offset, bit mask) of the specification's register table.
\<close>

theorem register_table:
  "map triple registers = spec_register_table \<and> length registers = 22"
  by (simp add: registers_def spec_register_table_def triple_def Reg_def
      pwd_def afe_gb_def wdth_def nf_lev_def srej_def min_num_ligh_def cl_stat_def int_reg_def
      mask_dist_def lco_fdiv_def s_lig_l_def s_lig_m_def s_lig_mm_def distance_reg_def
      tun_cap_def disp_flags_def trco_calib_nok_def trco_calib_done_def srco_calib_nok_def
      srco_calib_done_def preset_default_def calib_rco_def)

section \<open>Range validation\<close>

lemma watchdog_set_eq:
  "watchdog_set e v tr =
     (if 0 \<le> v \<and> v \<le> 10
      then (Inr (), tr @ [Rd 0x41 (uint (spi_reply e tr 0x41)),
                          Wr 0x01 ((uint (spi_reply e tr 0x41) AND NOT 0x0F) OR v)])
      else (Inl (RangeError 0 10), tr))"
proof (cases "0 \<le> v \<and> v \<le> 10")
  case True
  then have "v AND 0xFF = v" by (intro small_and_255) auto
  with True show ?thesis
    by (simp add: watchdog_set_def value_is_in_range_def set_register_eq wdth_def Reg_def)
next
  case False
  then show ?thesis
    by (auto simp add: watchdog_set_def value_is_in_range_def)
qed

text \<open>
  C7. The watchdog setter accepts every value from 0 to 10, in particular 0 and 10, and
  writes it with one read-modify-write of register 1; every other value, in particular
  -1 and 11, raises the range error and leaves the trace as it was: no transaction
  reaches the bus.
\<close>

theorem watchdog_range:
  "watchdog_set e v tr =
     (if 0 \<le> v \<and> v \<le> 10
      then (Inr (), tr @ [Rd 0x41 (uint (spi_reply e tr 0x41)),
                          Wr 0x01 ((uint (spi_reply e tr 0x41) AND NOT 0x0F) OR v)])
      else (Inl (RangeError 0 10), tr))
   \<and> watchdog_set e 0 tr
       = (Inr (), tr @ [Rd 0x41 (uint (spi_reply e tr 0x41)),
                        Wr 0x01 (uint (spi_reply e tr 0x41) AND NOT 0x0F)])
   \<and> watchdog_set e 10 tr
       = (Inr (), tr @ [Rd 0x41 (uint (spi_reply e tr 0x41)),
                        Wr 0x01 ((uint (spi_reply e tr 0x41) AND NOT 0x0F) OR 10)])
   \<and> watchdog_set e (- 1) tr = (Inl (RangeError 0 10), tr)
   \<and> watchdog_set e 11 tr = (Inl (RangeError 0 10), tr)"
  by (simp add: watchdog_set_eq)

section \<open>Writing and reading a bit field\<close>

text \<open>
  C1, as the code has it. For every descriptor that satisfies the invariant of the data
  model and every value the field can hold (\<open>0 \<le> v \<le> field_max r\<close>), writing the field
  on the echoing bus and reading the raw byte back shows the bits outside the mask as
  they were before. The restriction to values that fit is needed: the driver ORs in
  \<open>(v << offset) & 0xFF\<close>, not \<open>(v << offset) & mask\<close>.
\<close>

theorem set_register_frame:
  assumes "well_formed r" "0 \<le> v" "v \<le> field_max r"
  shows "fst (read_byte_in (echo_bus init ck) r (snd (set_register (echo_bus init ck) r v tr)))
           AND NOT (mask_reg r)
         = fst (read_byte_in (echo_bus init ck) r tr) AND NOT (mask_reg r)"
  using assms by (rule field_set_frame)

theorem set_register_frame_witness:
  "well_formed wdth \<and> (0::int) \<le> 5 \<and> 5 \<le> field_max wdth
   \<and> fst (read_byte_in loaded_bus wdth (snd (set_register loaded_bus wdth 5 [])))
       AND NOT (mask_reg wdth) = 0xF0
   \<and> fst (read_byte_in loaded_bus wdth []) AND NOT (mask_reg wdth) = 0xF0"
proof -
  have wf: "well_formed wdth"
    by (simp add: well_formed_def wdth_def Reg_def upt_rec)
  have hi: "5 \<le> field_max wdth"
    by (simp add: field_max_def wdth_def Reg_def)
  have before: "fst (read_byte_in loaded_bus wdth []) AND NOT (mask_reg wdth) = 0xF0"
    by (simp add: read_byte_in_def Let_def loaded_bus_def echo_bus_def ones_regs_def wdth_def Reg_def)
  from set_register_frame [OF wf _ hi, of ones_regs stopped "[]"] before wf hi
  show ?thesis by (simp add: loaded_bus_def)
qed

text \<open>
  C1 as stated fails for a value wider than the field: on a register file of zero
  bytes, writing 0x10 to the watchdog field (mask 0x0F of register 1) sets bit 4 of the
  byte, which belongs to the noise-floor field.
\<close>

theorem set_register_frame_counterexample:
  "fst (read_byte_in blank_bus wdth (snd (set_register blank_bus wdth 0x10 []))) AND NOT (mask_reg wdth)
     \<noteq> fst (read_byte_in blank_bus wdth []) AND NOT (mask_reg wdth)"
  by (simp add: set_register_eq read_byte_in_def Let_def blank_bus_def echo_bus_def zero_regs_def wdth_def Reg_def)



text \<open>
  C2. For every descriptor that satisfies the invariant of the data model and every
  value representable in the field, \<open>set_register\<close> on the echoing bus succeeds and
  \<open>get_register\<close> afterwards returns the value.
\<close>

theorem set_get_roundtrip:
  assumes "well_formed r" "0 \<le> v" "v \<le> field_max r"
  shows "fst (set_register (echo_bus init ck) r v tr) = Inr ()
       \<and> fst (get_register (echo_bus init ck) r (snd (set_register (echo_bus init ck) r v tr))) = v"
  using assms by (rule field_set_get)

theorem set_get_roundtrip_witness:
  "well_formed nf_lev \<and> (0::int) \<le> 5 \<and> 5 \<le> field_max nf_lev
   \<and> fst (set_register loaded_bus nf_lev 5 []) = Inr ()
   \<and> fst (get_register loaded_bus nf_lev (snd (set_register loaded_bus nf_lev 5 []))) = 5"
proof -
  have wf: "well_formed nf_lev"
    by (simp add: well_formed_def nf_lev_def Reg_def upt_rec push_bit_eq_mult)
  have hi: "5 \<le> field_max nf_lev"
    by (simp add: field_max_def nf_lev_def Reg_def drop_bit_eq_div)
  from set_get_roundtrip [OF wf _ hi, of ones_regs stopped "[]"] wf hi
  show ?thesis by (simp add: loaded_bus_def)
qed

section \<open>Enumerated selection\<close>

text \<open>
  C9. On the echoing bus, setting the strike-count threshold to one of 1, 5, 9, 16
  succeeds, leaves the position of the value in the tuple (0 to 3; 5 is position 1) in
  the field, and the getter returns the value; any other value (3, for one) raises the
  choice error and leaves the trace as it was. The frequency divisor does the same with
  16, 32, 64, 128.
\<close>

theorem enumerated_selection:
  fixes init ck tr v
  defines "E \<equiv> echo_bus init ck"
  defines "s \<equiv> strike_count_threshold_set E v tr"
  defines "f \<equiv> freq_divisor_set E v tr"
  shows "(v \<in> set LIGHTNING_COUNT \<longrightarrow>
            fst s = Inr ()
          \<and> index_of v LIGHTNING_COUNT = Some (nat (fst (get_register E min_num_ligh (snd s))))
          \<and> fst (strike_count_threshold E (snd s)) = Inr v)
       \<and> (v \<notin> set LIGHTNING_COUNT \<longrightarrow> s = (Inl (ChoiceError LIGHTNING_COUNT), tr))
       \<and> (v \<in> set FREQ_DIVISOR \<longrightarrow>
            fst f = Inr ()
          \<and> index_of v FREQ_DIVISOR = Some (nat (fst (get_register E lco_fdiv (snd f))))
          \<and> fst (freq_divisor E (snd f)) = Inr v)
       \<and> (v \<notin> set FREQ_DIVISOR \<longrightarrow> f = (Inl (ChoiceError FREQ_DIVISOR), tr))
       \<and> map (\<lambda>x. index_of x LIGHTNING_COUNT) [1, 5, 9, 16, 3] = [Some 0, Some 1, Some 2, Some 3, None]
       \<and> map (\<lambda>x. index_of x FREQ_DIVISOR) [16, 32, 64, 128] = [Some 0, Some 1, Some 2, Some 3]"
proof -
  have rt1: "0 \<le> i \<Longrightarrow> i \<le> 3 \<Longrightarrow>
      fst (set_register E min_num_ligh i tr) = Inr ()
      \<and> fst (get_register E min_num_ligh (snd (set_register E min_num_ligh i tr))) = i" for i
    unfolding E_def by (rule field_set_get) (simp_all add: wf_min_num_ligh)
  have rt2: "0 \<le> i \<Longrightarrow> i \<le> 3 \<Longrightarrow>
      fst (set_register E lco_fdiv i tr) = Inr ()
      \<and> fst (get_register E lco_fdiv (snd (set_register E lco_fdiv i tr))) = i" for i
    unfolding E_def by (rule field_set_get) (simp_all add: wf_lco_fdiv)
  have a: "v \<in> set LIGHTNING_COUNT \<longrightarrow>
            fst s = Inr ()
          \<and> index_of v LIGHTNING_COUNT = Some (nat (fst (get_register E min_num_ligh (snd s))))
          \<and> fst (strike_count_threshold E (snd s)) = Inr v"
    using rt1 [of 0] rt1 [of 1] rt1 [of 2] rt1 [of 3]
    by (auto simp: s_def strike_count_threshold_set_def strike_count_threshold_def
        LIGHTNING_COUNT_def choice_cases tuple_get_def split_beta)
  have b: "v \<notin> set LIGHTNING_COUNT \<longrightarrow> s = (Inl (ChoiceError LIGHTNING_COUNT), tr)"
    by (auto simp: s_def strike_count_threshold_set_def LIGHTNING_COUNT_def choice_cases)
  have c: "v \<in> set FREQ_DIVISOR \<longrightarrow>
            fst f = Inr ()
          \<and> index_of v FREQ_DIVISOR = Some (nat (fst (get_register E lco_fdiv (snd f))))
          \<and> fst (freq_divisor E (snd f)) = Inr v"
    using rt2 [of 0] rt2 [of 1] rt2 [of 2] rt2 [of 3]
    by (auto simp: f_def freq_divisor_set_def freq_divisor_def
        FREQ_DIVISOR_def choice_cases tuple_get_def split_beta)
  have d: "v \<notin> set FREQ_DIVISOR \<longrightarrow> f = (Inl (ChoiceError FREQ_DIVISOR), tr)"
    by (auto simp: f_def freq_divisor_set_def FREQ_DIVISOR_def choice_cases)
  have e: "map (\<lambda>x. index_of x LIGHTNING_COUNT) [1, 5, 9, 16, 3] = [Some 0, Some 1, Some 2, Some 3, None]"
    by (simp add: LIGHTNING_COUNT_def)
  have g: "map (\<lambda>x. index_of x FREQ_DIVISOR) [16, 32, 64, 128] = [Some 0, Some 1, Some 2, Some 3]"
    by (simp add: FREQ_DIVISOR_def)
  from a b c d e g show ?thesis by blast
qed


theorem enumerated_selection_witness:
  "5 \<in> set LIGHTNING_COUNT \<and> 3 \<notin> set LIGHTNING_COUNT
   \<and> 32 \<in> set FREQ_DIVISOR \<and> 3 \<notin> set FREQ_DIVISOR
   \<and> fst (strike_count_threshold_set loaded_bus 5 []) = Inr ()
   \<and> fst (get_register loaded_bus min_num_ligh (snd (strike_count_threshold_set loaded_bus 5 []))) = 1
   \<and> fst (strike_count_threshold loaded_bus (snd (strike_count_threshold_set loaded_bus 5 []))) = Inr 5
   \<and> strike_count_threshold_set loaded_bus 3 [] = (Inl (ChoiceError LIGHTNING_COUNT), [])
   \<and> fst (freq_divisor loaded_bus (snd (freq_divisor_set loaded_bus 32 []))) = Inr 32
   \<and> freq_divisor_set loaded_bus 3 [] = (Inl (ChoiceError FREQ_DIVISOR), [])"
proof -
  have m: "5 \<in> set LIGHTNING_COUNT" "3 \<notin> set LIGHTNING_COUNT"
    "32 \<in> set FREQ_DIVISOR" "3 \<notin> set FREQ_DIVISOR"
    by (simp_all add: LIGHTNING_COUNT_def FREQ_DIVISOR_def)
  have i: "index_of 5 LIGHTNING_COUNT = Some 1"
    by (simp add: LIGHTNING_COUNT_def)
  note A = enumerated_selection [of 5 ones_regs stopped "[]", folded loaded_bus_def]
  note B = enumerated_selection [of 3 ones_regs stopped "[]", folded loaded_bus_def]
  note C = enumerated_selection [of 32 ones_regs stopped "[]", folded loaded_bus_def]
  from A m(1) have a1: "fst (strike_count_threshold_set loaded_bus 5 []) = Inr ()"
    and a2: "index_of 5 LIGHTNING_COUNT
      = Some (nat (fst (get_register loaded_bus min_num_ligh (snd (strike_count_threshold_set loaded_bus 5 [])))))"
    and a3: "fst (strike_count_threshold loaded_bus (snd (strike_count_threshold_set loaded_bus 5 []))) = Inr 5"
    by blast+
  from a2 i have "nat (fst (get_register loaded_bus min_num_ligh (snd (strike_count_threshold_set loaded_bus 5 [])))) = 1"
    by simp
  then have a4: "fst (get_register loaded_bus min_num_ligh (snd (strike_count_threshold_set loaded_bus 5 []))) = 1"
    by arith
  from B m(2,4) have b1: "strike_count_threshold_set loaded_bus 3 [] = (Inl (ChoiceError LIGHTNING_COUNT), [])"
    and b2: "freq_divisor_set loaded_bus 3 [] = (Inl (ChoiceError FREQ_DIVISOR), [])"
    by blast+
  from C m(3) have c1: "fst (freq_divisor loaded_bus (snd (freq_divisor_set loaded_bus 32 []))) = Inr 32"
    by blast
  from m a1 a3 a4 b1 b2 c1 show ?thesis by blast
qed

section \<open>The calibration poll loop\<close>

lemma flag_bit: "drop_bit n ((d::int) AND push_bit n 1) = of_bool (bit d n)"
  by (rule bit_eqI) (auto simp: bit_simps)

lemma flag_bit1: "(drop_bit n (d::int) AND 1 = 0) \<longleftrightarrow> \<not> bit d n"
  by (simp add: and_one_eq bit_iff_odd_drop_bit mod_2_eq_odd)

lemma flag7: "drop_bit 7 ((d::int) AND 0x80) = 0 \<longleftrightarrow> \<not> bit d 7"
  using flag_bit [of 7 d] by (simp add: push_bit_eq_mult)

lemma get_trco_done:
  "get_register e trco_calib_done tr =
     (drop_bit 7 (uint (spi_reply e tr 0x7A) AND 0x80), tr @ [Rd 0x7A (uint (spi_reply e tr 0x7A))])"
  by (simp add: get_register_eq trco_calib_done_def Reg_def)

lemma get_srco_done:
  "get_register e srco_calib_done tr =
     (drop_bit 7 (uint (spi_reply e tr 0x7B) AND 0x80), tr @ [Rd 0x7B (uint (spi_reply e tr 0x7B))])"
  by (simp add: get_register_eq srco_calib_done_def Reg_def)

lemma get_trco_nok:
  "get_register e trco_calib_nok tr =
     (drop_bit 6 (uint (spi_reply e tr 0x7A) AND 0x40), tr @ [Rd 0x7A (uint (spi_reply e tr 0x7A))])"
  by (simp add: get_register_eq trco_calib_nok_def Reg_def)

lemma get_srco_nok:
  "get_register e srco_calib_nok tr =
     (drop_bit 6 (uint (spi_reply e tr 0x7B) AND 0x40), tr @ [Rd 0x7B (uint (spi_reply e tr 0x7B))])"
  by (simp add: get_register_eq srco_calib_nok_def Reg_def)

lemma calibration_done_shape:
  "\<exists>rs. snd (calibration_done e tr) = tr @ rs
      \<and> (if fst (calibration_done e tr) then finished rs else unfinished rs)
      \<and> list_all is_read rs"
  by (auto simp: calibration_done_def get_trco_done get_srco_done flag7 flag_bit1 Let_def)

text \<open>The three ways a run is built, and induction over them.\<close>

lemma polled_both_done: "finished rs \<Longrightarrow> polled start rs (Inr ())"
  by (erule finished.elims) simp_all

lemma polled_expired: "unfinished rs \<Longrightarrow> float_sub t start > 1 \<Longrightarrow>
     polled start (rs @ [Monotonic t]) (Inl (TimeoutError ''RCO calibration timed out.''))"
  by (erule unfinished.elims) simp_all

lemma polled_again: "unfinished rs \<Longrightarrow> \<not> float_sub t start > 1 \<Longrightarrow> polled start evs res \<Longrightarrow>
     polled start (rs @ Monotonic t # evs) res"
  by (erule unfinished.elims) simp_all

lemma polled_run_induct [consumes 1, case_names both_done expired again]:
  assumes "polled start evs res"
    and "\<And>rs. finished rs \<Longrightarrow> P rs (Inr ())"
    and "\<And>rs t. unfinished rs \<Longrightarrow> float_sub t start > 1 \<Longrightarrow>
           P (rs @ [Monotonic t]) (Inl (TimeoutError ''RCO calibration timed out.''))"
    and "\<And>rs t evs res. unfinished rs \<Longrightarrow> \<not> float_sub t start > 1 \<Longrightarrow> polled start evs res \<Longrightarrow>
           P evs res \<Longrightarrow> P (rs @ Monotonic t # evs) res"
  shows "P evs res"
  using assms
proof (induction start evs res rule: polled.induct)
  case (1 start c d t evs res)
  then have u: "unfinished [Rd c d]" by simp
  show ?case
  proof (cases "float_sub t start > 1")
    case True
    with 1(2) have "evs = []" "res = Inl (TimeoutError ''RCO calibration timed out.'')" by simp_all
    with 1(4) [OF u True] show ?thesis by simp
  next
    case False
    with 1(2) have p: "polled start evs res" by simp
    from 1(1) [OF False p 1(3) 1(4) 1(5)] have "P evs res" .
    from 1(5) [OF u False p this] show ?thesis by simp
  qed
next
  case (2 start c d c' s t evs res)
  then have u: "unfinished [Rd c d, Rd c' s]" by simp
  show ?case
  proof (cases "float_sub t start > 1")
    case True
    with 2(2) have "evs = []" "res = Inl (TimeoutError ''RCO calibration timed out.'')" by simp_all
    with 2(4) [OF u True] show ?thesis by simp
  next
    case False
    with 2(2) have p: "polled start evs res" by simp
    from 2(1) [OF False p 2(3) 2(4) 2(5)] have "P evs res" .
    from 2(5) [OF u False p this] show ?thesis by simp
  qed
qed auto

lemma wait_for_calibration_polled:
  assumes "wait_for_calibration e start tr = Some y"
  shows "\<exists>evs. snd y = tr @ evs \<and> polled start evs (fst y)"
proof (rule wait_for_calibration.raw_induct
    [where P = "\<lambda>e start tr y. \<exists>evs. snd y = tr @ evs \<and> polled start evs (fst y)", OF _ assms])
  fix wait :: "env \<Rightarrow> real \<Rightarrow> event list \<Rightarrow> unit outcome option"
  fix e start tr y
  assume IH: "\<And>e start tr y. wait e start tr = Some y \<Longrightarrow>
                \<exists>evs. snd y = tr @ evs \<and> polled start evs (fst y)"
  assume body: "(case calibration_done e tr of
        (fin, tr1) \<Rightarrow>
          if fin then Some (Inr (), tr1)
          else (case monotonic e tr1 of
                  (now, tr2) \<Rightarrow>
                    if float_sub now start > 1
                    then Some (Inl (TimeoutError ''RCO calibration timed out.''), tr2)
                    else wait e start tr2)) = Some y"
  obtain rs where rs: "snd (calibration_done e tr) = tr @ rs"
    and sh: "if fst (calibration_done e tr) then finished rs else unfinished rs"
    using calibration_done_shape [of e tr] by blast
  show "\<exists>evs. snd y = tr @ evs \<and> polled start evs (fst y)"
  proof (cases "fst (calibration_done e tr)")
    case True
    with body rs have "y = (Inr (), tr @ rs)" by (auto simp: split_beta)
    moreover from True sh have "polled start rs (Inr ())" by (simp add: polled_both_done)
    ultimately show ?thesis by simp
  next
    case False
    with sh have un: "unfinished rs" by simp
    let ?t = "clock e (tr @ rs)"
    show ?thesis
    proof (cases "float_sub ?t start > 1")
      case True
      with False body rs
      have "y = (Inl (TimeoutError ''RCO calibration timed out.''), tr @ rs @ [Monotonic ?t])"
        by (auto simp: split_beta monotonic_def Let_def)
      moreover from un True
      have "polled start (rs @ [Monotonic ?t]) (Inl (TimeoutError ''RCO calibration timed out.''))"
        by (rule polled_expired)
      ultimately show ?thesis by simp
    next
      case F2: False
      with False body rs
      have "wait e start (tr @ rs @ [Monotonic ?t]) = Some y"
        by (auto simp: split_beta monotonic_def Let_def)
      from IH [OF this] obtain evs where e1: "snd y = (tr @ rs @ [Monotonic ?t]) @ evs"
        and e2: "polled start evs (fst y)" by blast
      from un F2 e2 have "polled start (rs @ Monotonic ?t # evs) (fst y)" by (rule polled_again)
      with e1 show ?thesis by simp
    qed
  qed
qed

lemma unfinished_reads: "unfinished rs \<Longrightarrow> list_all is_read rs"
  by (induction rs rule: unfinished.induct) simp_all

lemma finished_reads: "finished rs \<Longrightarrow> list_all is_read rs"
  by (induction rs rule: finished.induct) simp_all

lemma reads_no_clock: "list_all is_read rs \<Longrightarrow> Monotonic t \<notin> set rs"
  by (auto simp: list_all_iff)

lemma reads_no_write: "list_all is_read rs \<Longrightarrow> filter is_write rs = []"
  by (induction rs) (auto elim: is_read.elims)

lemma polled_result:
  assumes "polled start evs res"
  shows "(res = Inr () \<or> res = Inl (TimeoutError ''RCO calibration timed out.''))
       \<and> (res = Inl (TimeoutError ''RCO calibration timed out.'')
            \<longleftrightarrow> (\<exists>t. Monotonic t \<in> set evs \<and> float_sub t start > 1))
       \<and> filter is_write evs = []"
  using assms
proof (induction rule: polled_run_induct)
  case (both_done rs)
  then have "list_all is_read rs" by (rule finished_reads)
  then show ?case by (simp add: reads_no_clock reads_no_write)
next
  case (expired rs t)
  then have "list_all is_read rs" by (simp add: unfinished_reads)
  with expired show ?case by (auto simp: reads_no_write)
next
  case (again rs t evs res)
  then have "list_all is_read rs" by (simp add: unfinished_reads)
  with again show ?case by (auto simp: reads_no_write reads_no_clock)
qed

text \<open>
  The loop returns exactly when some iteration ends it.
\<close>

lemma wait_for_calibration_step:
  "wait_for_calibration e start tr =
     (if fst (calibration_done e tr) then Some (Inr (), snd (calibration_done e tr))
      else if float_sub (clock e (snd (calibration_done e tr))) start > 1
      then Some (Inl (TimeoutError ''RCO calibration timed out.''), next_poll e tr)
      else wait_for_calibration e start (next_poll e tr))"
  by (subst wait_for_calibration.simps)
     (simp add: split_beta monotonic_def next_poll_def Let_def)

lemma stops_eq:
  "stops e start tr \<longleftrightarrow>
     fst (calibration_done e tr) \<or> float_sub (clock e (snd (calibration_done e tr))) start > 1"
  by (simp add: stops_def monotonic_def Let_def)

lemma stops_returns:
  "stops e start (nth_poll e tr n) \<Longrightarrow> \<exists>y. wait_for_calibration e start tr = Some y"
proof (induction n arbitrary: tr)
  case 0
  then show ?case
    by (subst wait_for_calibration_step) (auto simp: stops_eq)
next
  case (Suc n)
  then have "\<exists>y. wait_for_calibration e start (next_poll e tr) = Some y" by simp
  then show ?case
    by (subst wait_for_calibration_step) auto
qed

lemma returns_stops:
  assumes "wait_for_calibration e start tr = Some y"
  shows "\<exists>n. stops e start (nth_poll e tr n)"
proof (rule wait_for_calibration.raw_induct
    [where P = "\<lambda>e start tr y. \<exists>n. stops e start (nth_poll e tr n)", OF _ assms])
  fix wait :: "env \<Rightarrow> real \<Rightarrow> event list \<Rightarrow> unit outcome option"
  fix e start tr y
  assume IH: "\<And>e start tr y. wait e start tr = Some y \<Longrightarrow> \<exists>n. stops e start (nth_poll e tr n)"
  assume body: "(case calibration_done e tr of
        (fin, tr1) \<Rightarrow>
          if fin then Some (Inr (), tr1)
          else (case monotonic e tr1 of
                  (now, tr2) \<Rightarrow>
                    if float_sub now start > 1
                    then Some (Inl (TimeoutError ''RCO calibration timed out.''), tr2)
                    else wait e start tr2)) = Some y"
  show "\<exists>n. stops e start (nth_poll e tr n)"
  proof (cases "stops e start tr")
    case True
    then have "stops e start (nth_poll e tr 0)" by simp
    then show ?thesis ..
  next
    case False
    with body have "wait e start (next_poll e tr) = Some y"
      by (simp add: stops_eq split_beta monotonic_def next_poll_def Let_def)
    from IH [OF this] obtain n where "stops e start (nth_poll e (next_poll e tr) n)" ..
    then have "stops e start (nth_poll e tr (Suc n))" by simp
    then show ?thesis ..
  qed
qed

lemma wait_for_calibration_returns_iff:
  "(\<exists>y. wait_for_calibration e start tr = Some y) \<longleftrightarrow> (\<exists>n. stops e start (nth_poll e tr n))"
  using stops_returns returns_stops by blast

text \<open>Float subtraction is exact when the exact difference is a whole number below \<open>2 ^ 53\<close>.\<close>

lemma float_sub_exact:
  assumes "a - b = of_int d" "\<bar>d\<bar> < 2 ^ 53"
  shows "float_sub a b = a - b"
proof (cases "d = 0")
  case True
  with assms show ?thesis by (simp add: float_sub_def round_to_double_def)
next
  case False
  let ?n = "d * 2 ^ 1074"
  have n: "\<lfloor>(a - b) * 2 ^ 1074\<rfloor> = ?n"
  proof -
    have "(a - b) * 2 ^ 1074 = of_int ?n" using assms(1) by simp
    then show ?thesis by (metis floor_of_int)
  qed
  from False have pos: "\<bar>d\<bar> > 0" by simp
  have k: "bitlen \<bar>?n\<bar> = bitlen \<bar>d\<bar> + 1074"
    using bitlen_pow2 [OF pos, of 1074] by (simp add: abs_mult)
  from pos have k1: "bitlen \<bar>d\<bar> \<ge> 1" by (simp add: bitlen_alt_def)
  from assms(2) have k2: "bitlen \<bar>d\<bar> \<le> 53"
    by (simp add: bitlen_le_iff_power)
  define s where "s = nat (bitlen \<bar>d\<bar> + 1074 - 53)"
  from k1 k2 have s: "s \<le> 1074" by (simp add: s_def)
  then obtain c where c: "1074 = s + c" using le_Suc_ex by blast
  have dv: "?n = (d * 2 ^ c) * 2 ^ s"
    by (subst c) (simp add: power_add)
  have r: "round_half_even ?n s * 2 ^ s = ?n"
    unfolding dv by (simp add: round_half_even_def)
  from k1 have big: "\<not> bitlen \<bar>d\<bar> + 1074 \<le> 53" by simp
  show ?thesis
    unfolding float_sub_def round_to_double_def n Let_def k
    using big r assms(1) by (simp add: s_def)
qed

lemma float_sub_whole:
  "float_sub 0 0 = 0" "float_sub 1 0 = 1" "float_sub 2 0 = 2" "float_sub 4 2 = 2"
  using float_sub_exact [of 0 0 0] float_sub_exact [of 1 0 1]
    float_sub_exact [of 2 0 2] float_sub_exact [of 4 2 2]
  by simp_all

text \<open>
  Rounding matters at the deadline: from the start reading \<open>1 - 2 ^ -53\<close> to the reading
  2 the exact difference is above 1, the float difference is 1.
\<close>

lemma float_sub_rounds: "float_sub 2 (1 - 1 / 2 ^ 53) = 1"
proof -
  define P :: int where "P = 2 ^ 1021"
  have P: "P > 0" by (simp add: P_def)
  have e: "(2::real) ^ 1074 = 2 ^ 53 * of_int P" "(2::int) ^ 1022 = 2 * P"
    unfolding P_def by (simp_all flip: power_add power_Suc)
  have d: "(2::real) - (1 - 1 / 2 ^ 53) = (2 ^ 53 + 1) / 2 ^ 53" by simp
  have n: "\<lfloor>((2::real) - (1 - 1 / 2 ^ 53)) * 2 ^ 1074\<rfloor> = (2 ^ 53 + 1) * P"
  proof -
    have "((2::real) - (1 - 1 / 2 ^ 53)) * 2 ^ 1074 = of_int ((2 ^ 53 + 1) * P)"
      unfolding d e by simp
    then show ?thesis by (metis floor_of_int)
  qed
  have b0: "bitlen (2 ^ 53 + 1) = 54"
    using bitlen_twopow_add_eq [of 1 53] by simp
  have k: "bitlen \<bar>(2 ^ 53 + 1) * P\<bar> = 1075"
    using bitlen_pow2 [of "2 ^ 53 + 1" 1021] b0 by (simp add: P_def abs_mult)
  have q: "((2 ^ 53 + 1) * P) div (2 * P) = 2 ^ 52"
    using P by simp
  have r: "((2 ^ 53 + 1) * P) mod (2 * P) = P"
    using P mod_mult_mult2 [of "2 ^ 53 + 1" P 2] by simp
  have rh: "round_half_even ((2 ^ 53 + 1) * P) 1022 = 2 ^ 52"
    unfolding round_half_even_def e(2) q r Let_def by simp
  have "of_int (2 ^ 52 * (2 * P)) / (2 ^ 53 * real_of_int P) = (1::real)"
    using P by simp
  with rh P show ?thesis
    unfolding float_sub_def round_to_double_def n k Let_def
    by (simp add: e)
qed



section \<open>The calibration procedure\<close>

lemma magic_byte: "(uint (w::8 word) AND NOT 0xFF) OR (push_bit 0 0x96 AND 0xFF) = 0x96"
proof -
  have "uint w AND NOT (mask 8) = 0"
    by (rule bit_eqI) (auto simp: bit_simps bit_uint_iff dest: bit_imp_le_length)
  then have "uint w AND NOT 0xFF = 0" by (simp add: m255)
  then show ?thesis by simp
qed

lemma set_calib_rco:
  "set_register e calib_rco 0x96 tr
     = (Inr (), tr @ [Rd 0x7D (uint (spi_reply e tr 0x7D)), Wr 0x3D 0x96])"
  using magic_byte [of "spi_reply e tr 0x7D"]
  by (simp add: set_register_eq calib_rco_def Reg_def)

lemma nok_check:
  "(case get_register e trco_calib_nok tr3 of
      (tn, tr4) \<Rightarrow>
        if tn \<noteq> 0
        then Some (Inl (RuntimeError ''AS3935 RCO calibration failed.''), tr4)
        else (case get_register e srco_calib_nok tr4 of
                (sn, tr5) \<Rightarrow>
                  if sn \<noteq> 0
                  then Some (Inl (RuntimeError ''AS3935 RCO calibration failed.''), tr5)
                  else Some (Inr (), tr5)))
   = Some (if fst (get_register e trco_calib_nok tr3) \<noteq> 0
              \<or> fst (get_register e srco_calib_nok (snd (get_register e trco_calib_nok tr3))) \<noteq> 0
           then Inl (RuntimeError ''AS3935 RCO calibration failed.'') else Inr (),
           tr3 @ (if fst (get_register e trco_calib_nok tr3) \<noteq> 0
                  then [Rd 0x7A (uint (spi_reply e tr3 0x7A))]
                  else [Rd 0x7A (uint (spi_reply e tr3 0x7A)),
                        Rd 0x7B (uint (spi_reply e (tr3 @ [Rd 0x7A (uint (spi_reply e tr3 0x7A))]) 0x7B))]))"
  by (simp add: get_trco_nok get_srco_nok)

lemma calibrate_clocks_unfold:
  fixes e tr
  defines "tr1 \<equiv> snd (set_register e calib_rco 0x96 tr)"
  defines "start \<equiv> clock e tr1"
  shows "calibrate_clocks e tr =
     (case wait_for_calibration e start (tr1 @ [Monotonic start]) of
        None \<Rightarrow> None
      | Some (Inl err, tr3) \<Rightarrow> Some (Inl err, tr3)
      | Some (Inr u, tr3) \<Rightarrow>
          Some (if fst (get_register e trco_calib_nok tr3) \<noteq> 0
                   \<or> fst (get_register e srco_calib_nok (snd (get_register e trco_calib_nok tr3))) \<noteq> 0
                then Inl (RuntimeError ''AS3935 RCO calibration failed.'') else Inr (),
                tr3 @ (if fst (get_register e trco_calib_nok tr3) \<noteq> 0
                  then [Rd 0x7A (uint (spi_reply e tr3 0x7A))]
                  else [Rd 0x7A (uint (spi_reply e tr3 0x7A)),
                        Rd 0x7B (uint (spi_reply e (tr3 @ [Rd 0x7A (uint (spi_reply e tr3 0x7A))]) 0x7B))])))"
  unfolding calibrate_clocks_def nok_check tr1_def start_def
  by (simp add: set_calib_rco monotonic_def Let_def split: option.splits sum.splits prod.splits)

lemma calibrate_clocks_sound:
  assumes "calibrate_clocks e tr = Some (res, tr')"
  shows "(res = Inr () \<or> res = Inl (TimeoutError ''RCO calibration timed out.'')
            \<or> res = Inl (RuntimeError ''AS3935 RCO calibration failed.''))
       \<and> (\<exists>evs. tr' = tr @ evs \<and> filter is_write evs = [Wr 0x3D 0x96])"
proof -
  let ?tr1 = "tr @ [Rd 0x7D (uint (spi_reply e tr 0x7D)), Wr 0x3D 0x96]"
  let ?start = "clock e ?tr1"
  let ?tr2 = "?tr1 @ [Monotonic ?start]"
  from assms obtain r3 tr3 where w: "wait_for_calibration e ?start ?tr2 = Some (r3, tr3)"
    by (auto simp: calibrate_clocks_unfold set_calib_rco split: option.splits)
  from wait_for_calibration_polled [OF w] obtain evs where
    evs: "tr3 = ?tr2 @ evs" and p: "polled ?start evs r3" by auto
  from polled_result [OF p] have r3: "r3 = Inr () \<or> r3 = Inl (TimeoutError ''RCO calibration timed out.'')"
    and nw: "filter is_write evs = []" by blast+
  from r3 show ?thesis
  proof
    assume "r3 = Inr ()"
    with assms w evs nw show ?thesis
      by (auto simp: calibrate_clocks_unfold set_calib_rco split: if_splits)
  next
    assume "r3 = Inl (TimeoutError ''RCO calibration timed out.'')"
    with assms w evs nw show ?thesis
      by (auto simp: calibrate_clocks_unfold set_calib_rco)
  qed
qed


lemma fixed_done:
  "calibration_done (fixed_bus regs ck) tr =
     (if bit (regs 0x3A) 7
      then (bit (regs 0x3B) 7, tr @ [Rd 0x7A (uint (regs 0x3A)), Rd 0x7B (uint (regs 0x3B))])
      else (False, tr @ [Rd 0x7A (uint (regs 0x3A))]))"
  by (simp add: calibration_done_def get_trco_done get_srco_done fixed_bus_def flag_bit1 bit_uint_iff)

lemma fixed_clock: "clock (fixed_bus regs ck) tr = ck tr"
  by (simp add: fixed_bus_def)

lemma fixed_reply: "spi_reply (fixed_bus regs ck) tr c = regs (c AND 0x3F)"
  by (simp add: fixed_bus_def)




text \<open>
  The deadline is a matter of the float difference, not of the exact one: with the start
  reading just below 1 and every later reading 2, the exact elapsed time is above one
  second at every check, the float difference is 1, and the procedure polls on for ever.
\<close>

lemma nth_poll_keeps_clock:
  "list_ex is_clock tr \<Longrightarrow> list_ex is_clock (nth_poll e tr n)"
proof (induction n arbitrary: tr)
  case 0
  then show ?case by simp
next
  case (Suc n)
  obtain rs where "snd (calibration_done e tr) = tr @ rs"
    using calibration_done_shape [of e tr] by blast
  with Suc.prems have "list_ex is_clock (next_poll e tr)"
    by (simp add: next_poll_def monotonic_def Let_def)
  then show ?case by (simp add: Suc.IH)
qed

lemma dead_edge_never_stops:
  assumes "list_ex is_clock tr"
  shows "\<not> stops dead_edge (1 - 1 / 2 ^ 53) tr"
proof -
  have d: "calibration_done dead_edge tr = (False, tr @ [Rd 0x7A 0])"
    by (simp add: dead_edge_def fixed_done zero_regs_def)
  from assms have c: "clock dead_edge (tr @ [Rd 0x7A 0]) = 2"
    by (simp add: dead_edge_def fixed_clock edge_clock_def)
  show ?thesis
    unfolding stops_eq d fst_conv snd_conv c float_sub_rounds by simp
qed

lemma dead_edge_polls_on:
  "calibrate_clocks dead_edge [] = None"
proof -
  let ?start = "1 - 1 / 2 ^ 53 :: real"
  let ?tr2 = "[Rd 0x7D 0, Wr 0x3D 0x96, Monotonic ?start]"
  have s: "snd (set_register dead_edge calib_rco 0x96 []) = [Rd 0x7D 0, Wr 0x3D 0x96]"
    by (simp add: set_calib_rco dead_edge_def fixed_reply zero_regs_def)
  have c: "clock dead_edge [Rd 0x7D 0, Wr 0x3D 0x96] = ?start"
    by (simp add: dead_edge_def fixed_clock edge_clock_def)
  have "\<not> stops dead_edge ?start (nth_poll dead_edge ?tr2 n)" for n
    by (rule dead_edge_never_stops, rule nth_poll_keeps_clock) simp
  then have "\<not> (\<exists>y. wait_for_calibration dead_edge ?start ?tr2 = Some y)"
    unfolding wait_for_calibration_returns_iff by blast
  then have "wait_for_calibration dead_edge ?start ?tr2 = None" by (metis not_None_eq)
  then show ?thesis
    by (simp add: calibrate_clocks_unfold s c)
qed






section \<open>The deadline of the poll loop\<close>

lemma polled_last:
  assumes "polled start evs res"
  shows "(res = Inr () \<longrightarrow> (\<exists>pre rs. evs = pre @ rs \<and> finished rs))
       \<and> (res \<noteq> Inr () \<longrightarrow>
            (\<exists>pre rs t. evs = pre @ rs @ [Monotonic t] \<and> unfinished rs \<and> float_sub t start > 1))"
  using assms
proof (induction rule: polled_run_induct)
  case (both_done rs)
  then show ?case by (metis append_Nil)
next
  case (expired rs t)
  then show ?case by (metis append_Nil sum.distinct(1))
next
  case (again rs t evs res)
  show ?case
  proof (cases "res = Inr ()")
    case True
    with again.IH obtain pre rs' where "evs = pre @ rs'" "finished rs'" by blast
    then have "rs @ Monotonic t # evs = (rs @ Monotonic t # pre) @ rs'" by simp
    with \<open>finished rs'\<close> True show ?thesis by blast
  next
    case False
    with again.IH obtain pre rs' t' where "evs = pre @ rs' @ [Monotonic t']"
      "unfinished rs'" "float_sub t' start > 1" by blast
    then have "rs @ Monotonic t # evs = (rs @ Monotonic t # pre) @ rs' @ [Monotonic t']" by simp
    with \<open>unfinished rs'\<close> \<open>float_sub t' start > 1\<close> False show ?thesis by blast
  qed
qed

text \<open>
  C6, as the code has it. The loop is entered as \<^verbatim>\<open>_calibrate_clocks\<close> enters it: the
  start reading is taken at \<open>tr1\<close>, immediately before the first poll. When the loop
  returns, the events after the start reading are a run \<open>polled\<close>: every clock reading
  follows one evaluation of the done condition that found the calibration unfinished
  (the read of the TRCO done flag and, only when that flag is set, the read of the SRCO
  done flag). The loop raises \<^verbatim>\<open>TimeoutError\<close> exactly when the float difference of one
  of these readings and the start reading is above 1, and then that reading is the last
  event; it returns normally exactly when no reading is that late. The loop returns
  exactly when some iteration reads both done flags set or finds such a reading.
\<close>

theorem poll_loop_timeout:
  fixes e tr1
  defines "start \<equiv> fst (monotonic e tr1)"
  defines "tr2 \<equiv> snd (monotonic e tr1)"
  shows
  "(wait_for_calibration e start tr2 = Some (res, tr') \<longrightarrow>
      start = clock e tr1 \<and>
      (\<exists>evs. tr' = tr1 @ Monotonic start # evs \<and> polled start evs res
         \<and> (res = Inl (TimeoutError ''RCO calibration timed out.'')
               \<longleftrightarrow> (\<exists>t. Monotonic t \<in> set evs \<and> float_sub t start > 1))
         \<and> (res = Inr () \<longleftrightarrow> \<not> (\<exists>t. Monotonic t \<in> set evs \<and> float_sub t start > 1))
         \<and> (res = Inl (TimeoutError ''RCO calibration timed out.'')
               \<longleftrightarrow> (\<exists>pre rs t. evs = pre @ rs @ [Monotonic t] \<and> unfinished rs
                      \<and> float_sub t start > 1))))
   \<and> ((\<exists>y. wait_for_calibration e start tr2 = Some y)
        \<longleftrightarrow> (\<exists>n. stops e start (nth_poll e tr2 n)))"
proof (intro conjI impI)
  assume w: "wait_for_calibration e start tr2 = Some (res, tr')"
  show "start = clock e tr1" by (simp add: start_def monotonic_def Let_def)
  from wait_for_calibration_polled [OF w] obtain evs where
    evs: "tr' = tr2 @ evs" and p: "polled start evs res" by auto
  from evs have evs': "tr' = tr1 @ Monotonic start # evs"
    by (simp add: tr2_def start_def monotonic_def Let_def)
  note r = polled_result [OF p] and l = polled_last [OF p]
  from r have a: "res = Inl (TimeoutError ''RCO calibration timed out.'')
               \<longleftrightarrow> (\<exists>t. Monotonic t \<in> set evs \<and> float_sub t start > 1)" by blast
  from r have b: "res = Inr () \<longleftrightarrow> \<not> (\<exists>t. Monotonic t \<in> set evs \<and> float_sub t start > 1)" by auto
  have c: "res = Inl (TimeoutError ''RCO calibration timed out.'')
               \<longleftrightarrow> (\<exists>pre rs t. evs = pre @ rs @ [Monotonic t] \<and> unfinished rs
                      \<and> float_sub t start > 1)"
  proof
    assume "res = Inl (TimeoutError ''RCO calibration timed out.'')"
    with l show "\<exists>pre rs t. evs = pre @ rs @ [Monotonic t] \<and> unfinished rs
        \<and> float_sub t start > 1"
      by simp
  next
    assume "\<exists>pre rs t. evs = pre @ rs @ [Monotonic t] \<and> unfinished rs \<and> float_sub t start > 1"
    then have "\<exists>t. Monotonic t \<in> set evs \<and> float_sub t start > 1" by auto
    with a show "res = Inl (TimeoutError ''RCO calibration timed out.'')" by simp
  qed
  from evs' p a b c show "\<exists>evs. tr' = tr1 @ Monotonic start # evs \<and> polled start evs res
         \<and> (res = Inl (TimeoutError ''RCO calibration timed out.'')
               \<longleftrightarrow> (\<exists>t. Monotonic t \<in> set evs \<and> float_sub t start > 1))
         \<and> (res = Inr () \<longleftrightarrow> \<not> (\<exists>t. Monotonic t \<in> set evs \<and> float_sub t start > 1))
         \<and> (res = Inl (TimeoutError ''RCO calibration timed out.'')
               \<longleftrightarrow> (\<exists>pre rs t. evs = pre @ rs @ [Monotonic t] \<and> unfinished rs
                      \<and> float_sub t start > 1))"
    by blast
next
  show "(\<exists>y. wait_for_calibration e start tr2 = Some y)
        \<longleftrightarrow> (\<exists>n. stops e start (nth_poll e tr2 n))"
    by (rule wait_for_calibration_returns_iff)
qed

lemma dead_slow_start: "monotonic dead_slow [] = (0, [Monotonic 0])"
  by (simp add: monotonic_def Let_def dead_slow_def fixed_clock half_ticking_def)

lemma dead_slow_poll:
  "wait_for_calibration dead_slow 0 [Monotonic 0] =
     Some (Inl (TimeoutError ''RCO calibration timed out.''),
           [Monotonic 0, Rd 0x7A 0, Monotonic 1, Rd 0x7A 0, Monotonic 2])"
  apply (subst wait_for_calibration.simps)
  apply (simp add: dead_slow_def fixed_done fixed_clock zero_regs_def half_ticking_def
      monotonic_def float_sub_whole)
  apply (subst wait_for_calibration.simps)
  apply (simp add: dead_slow_def fixed_done fixed_clock zero_regs_def half_ticking_def
      monotonic_def float_sub_whole)
  done

theorem poll_loop_timeout_witness:
  "wait_for_calibration dead_slow (fst (monotonic dead_slow [])) (snd (monotonic dead_slow [])) =
     Some (Inl (TimeoutError ''RCO calibration timed out.''),
           [Monotonic 0, Rd 0x7A 0, Monotonic 1, Rd 0x7A 0, Monotonic 2])
   \<and> polled 0 [Rd 0x7A 0, Monotonic 1, Rd 0x7A 0, Monotonic 2]
        (Inl (TimeoutError ''RCO calibration timed out.''))
   \<and> (\<exists>t. Monotonic t \<in> set [Rd 0x7A 0, Monotonic 1, Rd 0x7A 0, Monotonic 2] \<and> float_sub t 0 > 1)
   \<and> (\<exists>n. stops dead_slow 0 (nth_poll dead_slow [Monotonic 0] n))"
proof -
  from poll_loop_timeout [of dead_slow "[]" "Inl (TimeoutError ''RCO calibration timed out.'')"
      "[Monotonic 0, Rd 0x7A 0, Monotonic 1, Rd 0x7A 0, Monotonic 2]"] dead_slow_poll
  show ?thesis by (auto simp: dead_slow_start)
qed

text \<open>
  C6 as stated fails where it says that the deadline is checked after each pair of
  done-flag reads: when the TRCO done flag reads clear, the SRCO done flag is not read.
  On a chip that never reports done, both deadline checks of the run follow a single
  read of register 0x3A, and register 0x3B is never read.
\<close>

theorem poll_single_read_counterexample:
  "wait_for_calibration dead_slow (fst (monotonic dead_slow [])) (snd (monotonic dead_slow [])) =
     Some (Inl (TimeoutError ''RCO calibration timed out.''),
           [Monotonic 0, Rd 0x7A 0, Monotonic 1, Rd 0x7A 0, Monotonic 2])
   \<and> filter is_read [Monotonic 0, Rd 0x7A 0, Monotonic 1, Rd 0x7A 0, Monotonic 2]
       = [Rd 0x7A 0, Rd 0x7A 0]"
  using dead_slow_poll by (simp add: dead_slow_start)

section \<open>Calibration failure\<close>

lemma trco_failed_wait:
  "wait_for_calibration trco_failed 2 [Rd 0x7D 0, Wr 0x3D 0x96, Monotonic 2]
     = Some (Inr (), [Rd 0x7D 0, Wr 0x3D 0x96, Monotonic 2, Rd 0x7A 0xC0, Rd 0x7B 0x80])"
  by (subst wait_for_calibration.simps)
     (simp add: trco_failed_def fixed_done trco_failed_regs_def)

lemma srco_failed_wait:
  "wait_for_calibration srco_failed 2 [Rd 0x7D 0, Wr 0x3D 0x96, Monotonic 2]
     = Some (Inr (), [Rd 0x7D 0, Wr 0x3D 0x96, Monotonic 2, Rd 0x7A 0x80, Rd 0x7B 0xC0])"
  by (subst wait_for_calibration.simps)
     (simp add: srco_failed_def fixed_done srco_failed_regs_def)

lemma trco_failed_start:
  "snd (set_register trco_failed calib_rco 0x96 []) = [Rd 0x7D 0, Wr 0x3D 0x96]"
  "clock trco_failed [Rd 0x7D 0, Wr 0x3D 0x96] = 2"
  by (simp_all add: set_calib_rco trco_failed_def fixed_reply fixed_clock trco_failed_regs_def ticking_def)

lemma srco_failed_start:
  "snd (set_register srco_failed calib_rco 0x96 []) = [Rd 0x7D 0, Wr 0x3D 0x96]"
  "clock srco_failed [Rd 0x7D 0, Wr 0x3D 0x96] = 2"
  by (simp_all add: set_calib_rco srco_failed_def fixed_reply fixed_clock srco_failed_regs_def ticking_def)

lemma failed_flags:
  "fst (get_register trco_failed trco_calib_nok tr) = 1"
  "fst (get_register trco_failed srco_calib_nok tr) = 0"
  "fst (get_register srco_failed trco_calib_nok tr) = 0"
  "fst (get_register srco_failed srco_calib_nok tr) = 1"
  by (simp_all add: get_trco_nok get_srco_nok trco_failed_def srco_failed_def fixed_reply
      trco_failed_regs_def srco_failed_regs_def drop_bit_eq_div)

text \<open>
  C5, as the code has it. When the poll loop has ended with both done flags read as set
  and a not-ok flag reads set, \<^verbatim>\<open>_calibrate_clocks\<close> raises the one
  \<^verbatim>\<open>RuntimeError\<close> with its fixed message, and the only write of the whole invocation
  is the one of 0x96 to register 0x3D.
\<close>

theorem calibration_failure:
  fixes e tr tr3
  defines "tr1 \<equiv> snd (set_register e calib_rco 0x96 tr)"
  assumes "wait_for_calibration e (clock e tr1) (tr1 @ [Monotonic (clock e tr1)]) = Some (Inr (), tr3)"
    and "fst (get_register e trco_calib_nok tr3) \<noteq> 0
         \<or> fst (get_register e srco_calib_nok (snd (get_register e trco_calib_nok tr3))) \<noteq> 0"
  shows "\<exists>evs. calibrate_clocks e tr
             = Some (Inl (RuntimeError ''AS3935 RCO calibration failed.''), tr @ evs)
           \<and> filter is_write evs = [Wr 0x3D 0x96]"
proof -
  from assms(2,3) obtain tr' where
    c: "calibrate_clocks e tr = Some (Inl (RuntimeError ''AS3935 RCO calibration failed.''), tr')"
    unfolding tr1_def by (simp add: calibrate_clocks_unfold)
  from calibrate_clocks_sound [OF c] obtain evs where "tr' = tr @ evs"
    "filter is_write evs = [Wr 0x3D 0x96]" by blast
  with c show ?thesis by blast
qed

theorem calibration_failure_witness:
  "wait_for_calibration trco_failed 2 [Rd 0x7D 0, Wr 0x3D 0x96, Monotonic 2]
     = Some (Inr (), [Rd 0x7D 0, Wr 0x3D 0x96, Monotonic 2, Rd 0x7A 0xC0, Rd 0x7B 0x80])
   \<and> fst (get_register trco_failed trco_calib_nok
            [Rd 0x7D 0, Wr 0x3D 0x96, Monotonic 2, Rd 0x7A 0xC0, Rd 0x7B 0x80]) = 1
   \<and> (\<exists>evs. calibrate_clocks trco_failed []
             = Some (Inl (RuntimeError ''AS3935 RCO calibration failed.''), [] @ evs)
           \<and> filter is_write evs = [Wr 0x3D 0x96])"
proof -
  let ?tr3 = "[Rd 0x7D 0, Wr 0x3D 0x96, Monotonic 2, Rd 0x7A 0xC0, Rd 0x7B 0x80]"
  have w: "wait_for_calibration trco_failed
             (clock trco_failed (snd (set_register trco_failed calib_rco 0x96 [])))
             (snd (set_register trco_failed calib_rco 0x96 [])
                @ [Monotonic (clock trco_failed (snd (set_register trco_failed calib_rco 0x96 [])))])
           = Some (Inr (), ?tr3)"
    by (simp add: trco_failed_start trco_failed_wait)
  have n: "fst (get_register trco_failed trco_calib_nok ?tr3) \<noteq> 0
         \<or> fst (get_register trco_failed srco_calib_nok
                 (snd (get_register trco_failed trco_calib_nok ?tr3))) \<noteq> 0"
    by (simp add: failed_flags)
  from calibration_failure [OF w n] trco_failed_wait failed_flags(1) [of ?tr3]
  show ?thesis by simp
qed

text \<open>
  C5 as stated fails where it says that the failure identifies the oscillator: a chip
  whose TRCO calibration failed and a chip whose SRCO calibration failed give the same
  outcome.
\<close>

theorem failure_not_identified_counterexample:
  "fst (get_register trco_failed trco_calib_nok []) = 1
   \<and> fst (get_register trco_failed srco_calib_nok []) = 0
   \<and> fst (get_register srco_failed trco_calib_nok []) = 0
   \<and> fst (get_register srco_failed srco_calib_nok []) = 1
   \<and> map_option fst (calibrate_clocks trco_failed [])
       = Some (Inl (RuntimeError ''AS3935 RCO calibration failed.''))
   \<and> map_option fst (calibrate_clocks srco_failed [])
       = Some (Inl (RuntimeError ''AS3935 RCO calibration failed.''))"
  by (simp add: failed_flags calibrate_clocks_unfold trco_failed_start srco_failed_start
      trco_failed_wait srco_failed_wait)

section \<open>Leaving and entering power-down\<close>

lemma power_down_eq:
  "power_down e tr = (bit (uint (spi_reply e tr 0x40)) 0, tr @ [Rd 0x40 (uint (spi_reply e tr 0x40))])"
  using flag_bit1 [of 0 "uint (spi_reply e tr 0x40)"]
  by (simp add: power_down_def get_register_eq pwd_def Reg_def)

lemma set_pwd_on:
  "set_register e pwd 0x01 tr =
     (Inr (), tr @ [Rd 0x40 (uint (spi_reply e tr 0x40)),
                    Wr 0x00 ((uint (spi_reply e tr 0x40) AND NOT 0x01) OR 0x01)])"
  by (simp add: set_register_eq pwd_def Reg_def)

lemma field_is_one: "(((d::int) AND NOT 0x01) OR 0x01) AND 0x01 = 1"
  by (simp add: bit.conj_disj_distrib2 and.assoc)

lemma pd_wait:
  "wait_for_calibration powered_down_chip 5
      [Rd 0x40 1, Rd 0x40 1, Wr 0x00 0, Rd 0x7D 0, Wr 0x3D 0x96, Monotonic 5]
     = Some (Inr (), [Rd 0x40 1, Rd 0x40 1, Wr 0x00 0, Rd 0x7D 0, Wr 0x3D 0x96, Monotonic 5,
                      Rd 0x7A 0x80, Rd 0x7B 0x80])"
  by (subst wait_for_calibration.simps)
     (simp add: powered_down_chip_def fixed_done powered_down_regs_def)

lemma pd_calibrate:
  "calibrate_clocks powered_down_chip [Rd 0x40 1, Rd 0x40 1, Wr 0x00 0]
     = Some (Inr (), [Rd 0x40 1, Rd 0x40 1, Wr 0x00 0, Rd 0x7D 0, Wr 0x3D 0x96, Monotonic 5,
                      Rd 0x7A 0x80, Rd 0x7B 0x80, Rd 0x7A 0x80, Rd 0x7B 0x80])"
proof -
  have s: "snd (set_register powered_down_chip calib_rco 0x96 [Rd 0x40 1, Rd 0x40 1, Wr 0x00 0])
         = [Rd 0x40 1, Rd 0x40 1, Wr 0x00 0, Rd 0x7D 0, Wr 0x3D 0x96]"
    by (simp add: set_calib_rco powered_down_chip_def fixed_reply powered_down_regs_def)
  have c: "clock powered_down_chip [Rd 0x40 1, Rd 0x40 1, Wr 0x00 0, Rd 0x7D 0, Wr 0x3D 0x96] = 5"
    by (simp add: powered_down_chip_def fixed_clock ticking_def)
  have r: "spi_reply powered_down_chip tr 0x7A = 0x80" "spi_reply powered_down_chip tr 0x7B = 0x80" for tr
    by (simp_all add: powered_down_chip_def fixed_reply powered_down_regs_def)
  show ?thesis
    by (simp add: calibrate_clocks_unfold s c pd_wait get_trco_nok get_srco_nok r)
qed

lemma pd_run:
  "power_down_set powered_down_chip False [] =
     Some (Inr (), [] @ [Rd 0x40 1, Rd 0x40 1, Wr 0x00 0, Rd 0x7D 0, Wr 0x3D 0x96, Monotonic 5,
                    Rd 0x7A 0x80, Rd 0x7B 0x80, Rd 0x7A 0x80, Rd 0x7B 0x80,
                    Rd 0x48 0, Wr 0x08 0x40, Sleep 0.002, Rd 0x48 0, Wr 0x08 0])"
proof -
  have r: "spi_reply powered_down_chip tr 0x40 = 1" "spi_reply powered_down_chip tr 0x48 = 0" for tr
    by (simp_all add: powered_down_chip_def fixed_reply powered_down_regs_def)
  have p: "power_down powered_down_chip [] = (True, [Rd 0x40 1])"
    by (simp add: power_down_eq r)
  have s0: "set_register powered_down_chip pwd 0x00 [Rd 0x40 1] = (Inr (), [Rd 0x40 1, Rd 0x40 1, Wr 0x00 0])"
    by (simp add: set_register_eq pwd_def Reg_def r)
  have d2: "set_register powered_down_chip disp_flags 0x02 tr = (Inr (), tr @ [Rd 0x48 0, Wr 0x08 0x40])" for tr
    by (simp add: set_register_eq disp_flags_def Reg_def r push_bit_eq_mult)
  have d0: "set_register powered_down_chip disp_flags 0x00 tr = (Inr (), tr @ [Rd 0x48 0, Wr 0x08 0])" for tr
    by (simp add: set_register_eq disp_flags_def Reg_def r)
  show ?thesis
    by (simp add: power_down_set_def p s0 pd_calibrate d2 d0 sleep_def)
qed

text \<open>
  C10. With \<open>d\<close> the byte the chip returns for register 0: setting \<^verbatim>\<open>power_down\<close> to
  \<^verbatim>\<open>True\<close> reads register 0 and writes it back with bit 0 set (the field holds 1);
  setting it to \<^verbatim>\<open>False\<close> while bit 0 of \<open>d\<close> is clear performs that one read and
  nothing else; and whenever setting it to \<^verbatim>\<open>False\<close> adds any event that is not a
  read (a write, a clock reading, a sleep), bit 0 of \<open>d\<close> was set.
\<close>

theorem power_down_setter:
  fixes e tr
  defines "d \<equiv> uint (spi_reply e tr 0x40)"
  shows "power_down_set e True tr
           = Some (Inr (), tr @ [Rd 0x40 d, Wr 0x00 ((d AND NOT 0x01) OR 0x01)])
       \<and> ((d AND NOT 0x01) OR 0x01) AND 0x01 = 1
       \<and> (\<not> bit d 0 \<longrightarrow> power_down_set e False tr = Some (Inr (), tr @ [Rd 0x40 d]))
       \<and> (power_down_set e False tr = Some (res, tr @ evs) \<and> \<not> list_all is_read evs \<longrightarrow> bit d 0)"
proof -
  have a: "power_down_set e True tr
           = Some (Inr (), tr @ [Rd 0x40 d, Wr 0x00 ((d AND NOT 0x01) OR 0x01)])"
    by (simp add: power_down_set_def set_pwd_on d_def)
  have b: "\<not> bit d 0 \<longrightarrow> power_down_set e False tr = Some (Inr (), tr @ [Rd 0x40 d])"
    by (simp add: power_down_set_def power_down_eq d_def)
  have c: "power_down_set e False tr = Some (res, tr @ evs) \<and> \<not> list_all is_read evs \<longrightarrow> bit d 0"
  proof (intro impI, rule ccontr)
    assume h: "power_down_set e False tr = Some (res, tr @ evs) \<and> \<not> list_all is_read evs"
      and "\<not> bit d 0"
    with b have "evs = [Rd 0x40 d]" by simp
    with h show False by simp
  qed
  from a b c field_is_one [of d] show ?thesis by blast
qed

theorem power_down_setter_witness:
  "\<not> bit (uint (spi_reply dead_bus [] 0x40)) 0
   \<and> power_down_set dead_bus False [] = Some (Inr (), [Rd 0x40 0])
   \<and> power_down_set dead_bus True [] = Some (Inr (), [Rd 0x40 0, Wr 0x00 1])
   \<and> power_down_set powered_down_chip False [] =
       Some (Inr (), [Rd 0x40 1, Rd 0x40 1, Wr 0x00 0, Rd 0x7D 0, Wr 0x3D 0x96, Monotonic 5,
                      Rd 0x7A 0x80, Rd 0x7B 0x80, Rd 0x7A 0x80, Rd 0x7B 0x80,
                      Rd 0x48 0, Wr 0x08 0x40, Sleep 0.002, Rd 0x48 0, Wr 0x08 0])
   \<and> bit (uint (spi_reply powered_down_chip [] 0x40)) 0"
proof -
  have z: "uint (spi_reply dead_bus [] 0x40) = 0"
    by (simp add: dead_bus_def fixed_reply zero_regs_def)
  note A = power_down_setter [of dead_bus "[]" "Inr ()" "[]"]
  note B = power_down_setter [of powered_down_chip "[]" "Inr ()"
      "[Rd 0x40 1, Rd 0x40 1, Wr 0x00 0, Rd 0x7D 0, Wr 0x3D 0x96, Monotonic 5,
        Rd 0x7A 0x80, Rd 0x7B 0x80, Rd 0x7A 0x80, Rd 0x7B 0x80,
        Rd 0x48 0, Wr 0x08 0x40, Sleep 0.002, Rd 0x48 0, Wr 0x08 0]"]
  from A z have a1: "power_down_set dead_bus False [] = Some (Inr (), [Rd 0x40 0])"
    and a2: "power_down_set dead_bus True [] = Some (Inr (), [Rd 0x40 0, Wr 0x00 1])"
    by simp_all
  from B pd_run have b: "bit (uint (spi_reply powered_down_chip [] 0x40)) 0"
    by simp
  from z a1 a2 b pd_run show ?thesis by simp
qed

end
